theory Spec2Isabelle
  imports Complex_Main "HOL-Library.AList"
begin

section \<open>Python values and exceptions\<close>

text \<open>
  The program is \<^verbatim>\<open>app.py\<close>, a Flask application that samples host telemetry through
  \<^verbatim>\<open>psutil\<close>. Python exceptions are values of type \<open>pyerr\<close>; a computation that may raise
  has type \<open>pyerr + 'a\<close> (\<open>Inl\<close> the exception). Python floats are idealised as rationals:
  every rate below is the exact quotient, which the floating-point result approximates.
  Python integers are unbounded, hence \<open>int\<close>.
\<close>

datatype pyerr = TypeError | ZeroDivisionError | AttributeError | OSError

type_synonym 'a py = "pyerr + 'a"

definition py_bind :: "'a py \<Rightarrow> ('a \<Rightarrow> 'b py) \<Rightarrow> 'b py" where
  "py_bind m f = (case m of Inl e \<Rightarrow> Inl e | Inr x \<Rightarrow> f x)"

text \<open>\<^verbatim>\<open>try: body  except Exception: handler\<close>\<close>

definition py_try :: "'a py \<Rightarrow> 'a py \<Rightarrow> 'a py" where
  "py_try body handler = (case body of Inl e \<Rightarrow> handler | Inr x \<Rightarrow> Inr x)"

text \<open>
  Truthiness of a number that may be \<^verbatim>\<open>None\<close>: \<^verbatim>\<open>None\<close>, \<^verbatim>\<open>0\<close> and \<^verbatim>\<open>0.0\<close> are falsy.
  \<^verbatim>\<open>a or b\<close> is \<^verbatim>\<open>a\<close> when \<^verbatim>\<open>a\<close> is truthy and \<^verbatim>\<open>b\<close> otherwise.
\<close>

definition truthy_num :: "'a::zero option \<Rightarrow> bool" where
  "truthy_num v = (case v of None \<Rightarrow> False | Some x \<Rightarrow> x \<noteq> 0)"

definition py_or_num :: "'a::zero option \<Rightarrow> 'a option \<Rightarrow> 'a option" where
  "py_or_num a b = (if truthy_num a then a else b)"

text \<open>Subtraction raises \<^verbatim>\<open>TypeError\<close> when an operand is \<^verbatim>\<open>None\<close>.\<close>

definition py_sub :: "'a::minus option \<Rightarrow> 'a option \<Rightarrow> 'a py" where
  "py_sub a b =
     (case a of None \<Rightarrow> Inl TypeError
      | Some x \<Rightarrow> (case b of None \<Rightarrow> Inl TypeError | Some y \<Rightarrow> Inr (x - y)))"

text \<open>True division raises \<^verbatim>\<open>ZeroDivisionError\<close> on a zero divisor.\<close>

definition py_truediv :: "rat \<Rightarrow> rat \<Rightarrow> rat py" where
  "py_truediv a b = (if b = 0 then Inl ZeroDivisionError else Inr (a / b))"

section \<open>The rate engine\<close>

subsection \<open>\<^verbatim>\<open>_calc_speed\<close> (lines 119-124)\<close>

text \<open>
  \<^verbatim>\<open>
  def _calc_speed(now, prev, now_val, prev_val):
      dt = max(now - (prev or now), 1e-6)
      try:
          return (now_val - (prev_val or now_val)) / dt
      except Exception:
          return 0.0
  \<close>
  \<open>now\<close> is always the float returned by \<^verbatim>\<open>time.time()\<close>; \<open>prev\<close> is the stored timestamp,
  \<^verbatim>\<open>None\<close> before the first poll; the counter values may be \<^verbatim>\<open>None\<close>.
\<close>

text \<open>The literal \<^verbatim>\<open>1e-6\<close>.\<close>

definition eps :: rat where
  "eps = 1 / 1000000"

definition calc_speed :: "rat \<Rightarrow> rat option \<Rightarrow> int option \<Rightarrow> int option \<Rightarrow> rat py" where
  "calc_speed now prev now_val prev_val =
     py_bind (py_sub (Some now) (py_or_num prev (Some now))) (\<lambda>elapsed.
       let dt = max elapsed eps in
       py_try
         (py_bind (py_sub now_val (py_or_num prev_val now_val)) (\<lambda>delta.
            py_truediv (of_int delta) dt))
         (Inr 0))"

subsection \<open>Counter samples and the stored previous sample\<close>

text \<open>
  \<^verbatim>\<open>psutil.net_io_counters\<close> returns the named tuple \<^verbatim>\<open>snetio\<close>, and
  \<^verbatim>\<open>psutil.disk_io_counters\<close> the named tuple \<^verbatim>\<open>sdiskio\<close>. The fields the program reads
  as attributes (\<^verbatim>\<open>counters.bytes_sent\<close>) are integers; the fields it reads with
  \<^verbatim>\<open>getattr(counters, "packets_sent", None)\<close> are optional, \<open>None\<close> when the attribute is
  absent.
\<close>

record snetio =
  bytes_sent :: int
  bytes_recv :: int
  packets_sent :: "int option"
  packets_recv :: "int option"
  errin :: int
  errout :: int
  dropin :: int
  dropout :: int

record sdiskio =
  read_count :: "int option"
  write_count :: "int option"
  read_bytes :: int
  write_bytes :: int
  read_time :: int
  write_time :: int

text \<open>
  A Python dict keyed by interface name is the list of its items, in insertion order;
  \<^verbatim>\<open>d.get(k)\<close> is \<open>map_of d k\<close> and \<^verbatim>\<open>d[k] = v\<close> is \<open>AList.update k v d\<close>.

  The global \<^verbatim>\<open>_prev_snapshot\<close> (lines 18-23), with keys \<^verbatim>\<open>time\<close>, \<^verbatim>\<open>net\<close>,
  \<^verbatim>\<open>net_pernic\<close> and \<^verbatim>\<open>disk_io\<close>, all \<^verbatim>\<open>None\<close> at process start.
\<close>

record snapshot =
  snap_time :: "rat option"
  snap_net :: "snetio option"
  snap_net_pernic :: "(string \<times> snetio) list option"
  snap_disk_io :: "sdiskio option"

definition initial_snapshot :: snapshot where
  "initial_snapshot =
     \<lparr>snap_time = None, snap_net = None, snap_net_pernic = None, snap_disk_io = None\<rparr>"

text \<open>
  What the three counter reads of one poll return: a value or an exception.
  \<^verbatim>\<open>net_io_counters(pernic=False)\<close> and \<^verbatim>\<open>disk_io_counters()\<close> return \<^verbatim>\<open>None\<close> on a
  host with no interface or no disk.
\<close>

record counter_source =
  net_io_counters :: "snetio option py"
  net_io_counters_pernic :: "(string \<times> snetio) list py"
  disk_io_counters :: "sdiskio option py"

text \<open>The dict \<^verbatim>\<open>speeds\<close> that \<^verbatim>\<open>get_io_and_net_speeds\<close> returns (lines 147-156).\<close>

record net_speeds =
  bytes_sent_per_sec :: rat
  bytes_recv_per_sec :: rat

record nic_speeds =
  nic_bytes_sent_per_sec :: rat
  nic_bytes_recv_per_sec :: rat
  nic_packets_sent :: "int option"
  nic_packets_recv :: "int option"

record disk_speeds =
  read_bytes_per_sec :: rat
  write_bytes_per_sec :: rat
  disk_read_count :: "int option"
  disk_write_count :: "int option"

record speeds =
  speeds_net :: net_speeds
  speeds_per_nic :: "(string \<times> nic_speeds) list"
  speeds_disk_io :: disk_speeds

subsection \<open>\<^verbatim>\<open>get_io_and_net_speeds\<close> (lines 126-197)\<close>

text \<open>
  \<^verbatim>\<open>prev_time and x\<close> used as a condition, where \<open>x\<close> is a named tuple or \<^verbatim>\<open>None\<close>: it holds
  when the timestamp is truthy and \<open>x\<close> is present (a named tuple with fields is truthy).
\<close>

definition prev_time_and :: "rat option \<Rightarrow> 'a option \<Rightarrow> 'a option" where
  "prev_time_and prev_time x = (if truthy_num prev_time then x else None)"

text \<open>
  Lines 130-135: the two network reads share one \<^verbatim>\<open>try\<close>; when either raises, \<^verbatim>\<open>net\<close> is
  \<^verbatim>\<open>None\<close> and \<^verbatim>\<open>net_pernic\<close> is the empty dict.
\<close>

definition read_net :: "counter_source \<Rightarrow> snetio option \<times> (string \<times> snetio) list" where
  "read_net src =
     (case py_bind (net_io_counters src) (\<lambda>net.
             py_bind (net_io_counters_pernic src) (\<lambda>net_pernic. Inr (net, net_pernic))) of
        Inl e \<Rightarrow> (None, [])
      | Inr r \<Rightarrow> r)"

text \<open>Lines 137-140.\<close>

definition read_disk_io :: "counter_source \<Rightarrow> sdiskio option" where
  "read_disk_io src = (case disk_io_counters src of Inl e \<Rightarrow> None | Inr d \<Rightarrow> d)"

text \<open>Lines 158-164, starting from the zero rates of line 148.\<close>

definition net_block :: "rat \<Rightarrow> rat option \<Rightarrow> snetio option \<Rightarrow> snetio option \<Rightarrow> net_speeds py" where
  "net_block now prev_time prev_net net =
     (case net of
        None \<Rightarrow> Inr \<lparr>bytes_sent_per_sec = 0, bytes_recv_per_sec = 0\<rparr>
      | Some n \<Rightarrow>
          (case prev_time_and prev_time prev_net of
             Some pn \<Rightarrow>
               py_bind (calc_speed now prev_time (Some (bytes_sent n)) (Some (bytes_sent pn)))
                 (\<lambda>sent_s.
               py_bind (calc_speed now prev_time (Some (bytes_recv n)) (Some (bytes_recv pn)))
                 (\<lambda>recv_s.
               Inr \<lparr>bytes_sent_per_sec = sent_s, bytes_recv_per_sec = recv_s\<rparr>))
           | None \<Rightarrow> Inr \<lparr>bytes_sent_per_sec = 0, bytes_recv_per_sec = 0\<rparr>))"

text \<open>
  Lines 167-180: the loop over \<^verbatim>\<open>net_pernic.items()\<close>; \<open>acc\<close> is \<^verbatim>\<open>speeds["per_nic"]\<close>.
\<close>

definition nic_entry ::
  "rat \<Rightarrow> rat option \<Rightarrow> (string \<times> snetio) list option \<Rightarrow> string \<Rightarrow> snetio \<Rightarrow> nic_speeds py"
where
  "nic_entry now prev_time prev_net_pernic nic counters =
     (let prev_c = (case prev_net_pernic of
                      None \<Rightarrow> None
                    | Some d \<Rightarrow> if d = [] then None else map_of d nic)
      in py_bind
           (case prev_time_and prev_time prev_c of
              Some pc \<Rightarrow>
                py_bind (calc_speed now prev_time (Some (bytes_sent counters)) (Some (bytes_sent pc)))
                  (\<lambda>sent_s.
                py_bind (calc_speed now prev_time (Some (bytes_recv counters)) (Some (bytes_recv pc)))
                  (\<lambda>recv_s. Inr (sent_s, recv_s)))
            | None \<Rightarrow> Inr (0, 0))
           (\<lambda>(sent_s, recv_s).
              Inr \<lparr>nic_bytes_sent_per_sec = sent_s, nic_bytes_recv_per_sec = recv_s,
                   nic_packets_sent = packets_sent counters,
                   nic_packets_recv = packets_recv counters\<rparr>))"

fun per_nic_loop ::
  "rat \<Rightarrow> rat option \<Rightarrow> (string \<times> snetio) list option \<Rightarrow> (string \<times> snetio) list
   \<Rightarrow> (string \<times> nic_speeds) list \<Rightarrow> (string \<times> nic_speeds) list py"
where
  "per_nic_loop now prev_time prev_net_pernic [] acc = Inr acc"
| "per_nic_loop now prev_time prev_net_pernic ((nic, counters) # rest) acc =
     py_bind (nic_entry now prev_time prev_net_pernic nic counters) (\<lambda>entry.
       per_nic_loop now prev_time prev_net_pernic rest (AList.update nic entry acc))"

text \<open>Line 166 guards the loop: an empty dict is falsy.\<close>

definition per_nic_block ::
  "rat \<Rightarrow> rat option \<Rightarrow> (string \<times> snetio) list option \<Rightarrow> (string \<times> snetio) list
   \<Rightarrow> (string \<times> nic_speeds) list py"
where
  "per_nic_block now prev_time prev_net_pernic net_pernic =
     (if net_pernic \<noteq> [] then per_nic_loop now prev_time prev_net_pernic net_pernic []
      else Inr [])"

text \<open>Lines 182-190, starting from the dict of lines 150-155.\<close>

definition disk_block :: "rat \<Rightarrow> rat option \<Rightarrow> sdiskio option \<Rightarrow> sdiskio option \<Rightarrow> disk_speeds py" where
  "disk_block now prev_time prev_disk_io disk_io =
     (case disk_io of
        None \<Rightarrow> Inr \<lparr>read_bytes_per_sec = 0, write_bytes_per_sec = 0,
                     disk_read_count = None, disk_write_count = None\<rparr>
      | Some d \<Rightarrow>
          (case prev_time_and prev_time prev_disk_io of
             Some pd \<Rightarrow>
               py_bind (calc_speed now prev_time (Some (read_bytes d)) (Some (read_bytes pd)))
                 (\<lambda>read_s.
               py_bind (calc_speed now prev_time (Some (write_bytes d)) (Some (write_bytes pd)))
                 (\<lambda>write_s.
               Inr \<lparr>read_bytes_per_sec = read_s, write_bytes_per_sec = write_s,
                    disk_read_count = read_count d, disk_write_count = write_count d\<rparr>))
           | None \<Rightarrow> Inr \<lparr>read_bytes_per_sec = 0, write_bytes_per_sec = 0,
                          disk_read_count = read_count d, disk_write_count = write_count d\<rparr>))"

text \<open>
  The whole poll. \<open>now\<close> is \<^verbatim>\<open>time.time()\<close>, \<open>src\<close> what the counter reads return, \<open>snap\<close>
  the global \<^verbatim>\<open>_prev_snapshot\<close> on entry. The result is the returned dict paired with the
  global as lines 192-195 leave it; an exception would leave the global untouched.
\<close>

definition get_io_and_net_speeds ::
  "rat \<Rightarrow> counter_source \<Rightarrow> snapshot \<Rightarrow> (speeds \<times> snapshot) py"
where
  "get_io_and_net_speeds now src snap =
     (let (net, net_pernic) = read_net src;
          disk_io = read_disk_io src;
          prev_time = snap_time snap;
          prev_net = snap_net snap;
          prev_net_pernic = snap_net_pernic snap;
          prev_disk_io = snap_disk_io snap
      in py_bind (net_block now prev_time prev_net net) (\<lambda>s_net.
         py_bind (per_nic_block now prev_time prev_net_pernic net_pernic) (\<lambda>s_per_nic.
         py_bind (disk_block now prev_time prev_disk_io disk_io) (\<lambda>s_disk_io.
         Inr (\<lparr>speeds_net = s_net, speeds_per_nic = s_per_nic, speeds_disk_io = s_disk_io\<rparr>,
              \<lparr>snap_time = Some now, snap_net = net, snap_net_pernic = Some net_pernic,
               snap_disk_io = disk_io\<rparr>)))))"

section \<open>The telemetry aggregator\<close>

subsection \<open>JSON values and the operating-system interface\<close>

text \<open>The values handed to \<^verbatim>\<open>jsonify\<close>.\<close>

datatype json =
  JNull | JBool bool | JInt int | JNum rat | JStr string
  | JList "json list" | JObj "(string \<times> json) list"

definition opt_json :: "('a \<Rightarrow> json) \<Rightarrow> 'a option \<Rightarrow> json" where
  "opt_json f v = (case v of None \<Rightarrow> JNull | Some x \<Rightarrow> f x)"

text \<open>The entry of a JSON object under a key.\<close>

definition json_get :: "json \<Rightarrow> string \<Rightarrow> json option" where
  "json_get j k = (case j of JObj kv \<Rightarrow> map_of kv k | _ \<Rightarrow> None)"

text \<open>
  The named tuples and objects of \<^verbatim>\<open>psutil\<close> and \<^verbatim>\<open>GPUtil\<close> that \<^verbatim>\<open>metrics\<close> and its helpers
  read. A field read with \<^verbatim>\<open>getattr(x, name, None)\<close> is optional.
\<close>

record svmem =
  vm_percent :: rat
  vm_total :: int
  vm_available :: int
  vm_pfaults :: "int option"
  vm_pageins :: "int option"

record sswap =
  sw_percent :: rat
  sw_total :: int

record sdiskpart =
  device :: string
  mountpoint :: string
  fstype :: string

record sdiskusage =
  du_percent :: rat
  du_total :: int
  du_free :: int
  du_used :: int

record gpu =
  gpu_id :: int
  gpu_name :: string
  gpu_load :: rat
  memoryTotal :: rat
  memoryUsed :: rat
  memoryFree :: rat
  memoryUtil :: rat
  gpu_temperature :: "rat option"

datatype address_family = AF_INET | AF_INET6 | AF_LINK | AF_OTHER

record snicaddr =
  family :: address_family
  address :: string

record snicstats =
  isup :: bool
  nic_speed :: "int option"

record sbattery =
  batt_percent :: rat
  batt_secsleft :: int
  batt_power_plugged :: "bool option"

record pmem =
  num_page_faults :: "int option"
  pfaults :: "int option"
  page_faults :: "int option"

text \<open>
  A process as \<^verbatim>\<open>psutil.process_iter(attrs)\<close> yields it: the entries of \<^verbatim>\<open>p.info\<close> (\<^verbatim>\<open>None\<close>
  where access was denied) and what the method calls \<^verbatim>\<open>p.cpu_percent(interval=0.0)\<close>,
  \<^verbatim>\<open>p.memory_percent()\<close> and \<^verbatim>\<open>p.memory_info()\<close> return or raise.
\<close>

record process =
  pid :: int
  proc_name :: "string option"
  proc_username :: "string option"
  info_cpu_percent :: "rat option"
  info_memory_percent :: "rat option"
  proc_cmdline :: "string list option"
  cpu_percent_call :: "rat py"
  memory_percent_call :: "rat py"
  memory_info_call :: "pmem py"

text \<open>
  What the operating system answers during one request. A call that the program wraps in
  a \<^verbatim>\<open>try\<close> somewhere is a value or an exception; the calls it never guards
  (\<^verbatim>\<open>cpu_count\<close>, \<^verbatim>\<open>virtual_memory\<close>, \<^verbatim>\<open>swap_memory\<close>, host name, platform strings, clock) are
  values: the model takes them to return, so an exception of \<open>metrics\<close> below is one the
  program can raise, while the program could raise in further cases. \<^verbatim>\<open>getloadavg\<close> is \<open>None\<close> where \<^verbatim>\<open>os\<close> has no such attribute, \<^verbatim>\<open>getGPUs\<close> is \<open>None\<close>
  where the import of \<^verbatim>\<open>GPUtil\<close> failed (lines 11-14). \<open>random_draws\<close> is the entropy behind
  the successive calls of \<^verbatim>\<open>random.randint\<close>.
\<close>

record os_env =
  cpu_percent :: "rat list py"
  cpu_count_logical :: "nat option"
  cpu_count_physical :: "nat option"
  random_draws :: "nat \<Rightarrow> nat"
  getloadavg :: "(rat \<times> rat \<times> rat) py option"
  virtual_memory :: svmem
  swap_memory :: sswap
  disk_partitions :: "sdiskpart list py"
  disk_usage :: "string \<Rightarrow> sdiskusage py"
  counter_reads :: counter_source
  time_time :: rat
  getGPUs :: "gpu list py option"
  net_if_addrs :: "(string \<times> snicaddr list) list py"
  net_if_stats :: "(string \<times> snicstats) list py"
  sensors_battery :: "sbattery option py"
  process_iter :: "process list py"
  gethostname :: string
  platform_system :: string
  platform_platform :: string
  platform_processor :: string
  platform_machine :: string
  utcnow_isoformat :: string
  net_connections :: "string list py"
  boot_time :: "rat py"
  fromtimestamp_isoformat :: "rat \<Rightarrow> string py"

text \<open>
  \<^verbatim>\<open>random.randint(a, b)\<close> returns an integer \<open>N\<close> with \<open>a \<le> N \<le> b\<close>; \<open>r\<close> is the entropy of
  the call. \<^verbatim>\<open>int(x)\<close> truncates a float towards zero. Python's \<^verbatim>\<open>round(x, n)\<close> on floats is a
  parameter \<open>rnd\<close> of the functions below.
\<close>

definition randint :: "int \<Rightarrow> int \<Rightarrow> nat \<Rightarrow> int" where
  "randint a b r = a + int (r mod nat (b - a + 1))"

definition py_int :: "rat \<Rightarrow> int" where
  "py_int x = (if 0 \<le> x then \<lfloor>x\<rfloor> else \<lceil>x\<rceil>)"

subsection \<open>The helpers of \<^verbatim>\<open>metrics\<close>\<close>

text \<open>
  \<^verbatim>\<open>get_system_info\<close> (lines 31-48). \<^verbatim>\<open>_safe_family_name\<close> (lines 25-29) yields the name of
  the address family or the family itself; either way the test of line 44 holds for
  \<^verbatim>\<open>AF_INET\<close> and \<^verbatim>\<open>AF_INET6\<close> only.
\<close>

definition is_inet :: "snicaddr \<Rightarrow> bool" where
  "is_inet addr = (family addr = AF_INET \<or> family addr = AF_INET6)"

definition get_system_info :: "os_env \<Rightarrow> json" where
  "get_system_info env =
     JObj [(''hostname'', JStr (gethostname env)),
           (''ip_addresses'',
              JList (case net_if_addrs env of
                       Inl e \<Rightarrow> []
                     | Inr ifs \<Rightarrow>
                         concat (map (\<lambda>(iface, addrs).
                           map (\<lambda>addr. JObj [(''iface'', JStr iface),
                                              (''address'', JStr (address addr))])
                             (filter is_inet addrs)) ifs))),
           (''system'', JStr (platform_system env)),
           (''platform'', JStr (platform_platform env)),
           (''processor'', JStr (platform_processor env)),
           (''architecture'', JStr (platform_machine env))]"

text \<open>
  Lines 56-65 and 77-86: a percentage that \<^verbatim>\<open>p.info\<close> lacks is asked of the process, and is
  \<open>0.0\<close> when that call raises.
\<close>

definition fill_percent :: "rat option \<Rightarrow> rat py \<Rightarrow> rat" where
  "fill_percent v call =
     (case v of Some x \<Rightarrow> x | None \<Rightarrow> (case call of Inl e \<Rightarrow> 0 | Inr y \<Rightarrow> y))"

definition info_json :: "process \<Rightarrow> rat \<Rightarrow> rat \<Rightarrow> (string \<times> json) list" where
  "info_json p cpu mem =
     [(''pid'', JInt (pid p)), (''name'', opt_json JStr (proc_name p)),
      (''username'', opt_json JStr (proc_username p)),
      (''cpu_percent'', JNum cpu), (''memory_percent'', JNum mem),
      (''cmdline'', opt_json (\<lambda>c. JList (map JStr c)) (proc_cmdline p))]"

text \<open>
  \<^verbatim>\<open>get_top_processes_by_cpu\<close> (lines 50-70). The call of \<^verbatim>\<open>psutil.process_iter\<close> on line 52
  is outside every \<^verbatim>\<open>try\<close>: its exception leaves the function. \<^verbatim>\<open>sort(key=..., reverse=True)\<close>
  is the stable sort on the negated key.
\<close>

definition get_top_processes_by_cpu :: "nat \<Rightarrow> os_env \<Rightarrow> json list py" where
  "get_top_processes_by_cpu n env =
     py_bind (process_iter env) (\<lambda>ps.
       let procs = map (\<lambda>p.
                     let cpu = fill_percent (info_cpu_percent p) (cpu_percent_call p);
                         mem = fill_percent (info_memory_percent p) (memory_percent_call p)
                     in (cpu + mem, JObj (info_json p cpu mem))) ps
       in Inr (map snd (take n (sort_key (\<lambda>x. - fst x) procs))))"

text \<open>Lines 88-93 and 331: the first truthy page-fault attribute of \<^verbatim>\<open>memory_info()\<close>.\<close>

definition page_fault_attr :: "pmem \<Rightarrow> int option" where
  "page_fault_attr mi =
     py_or_num (num_page_faults mi) (py_or_num (pfaults mi) (page_faults mi))"

text \<open>\<^verbatim>\<open>get_top_processes_by_memory\<close> (lines 72-98); line 74 is unguarded as line 52 is.\<close>

definition get_top_processes_by_memory :: "nat \<Rightarrow> os_env \<Rightarrow> json list py" where
  "get_top_processes_by_memory n env =
     py_bind (process_iter env) (\<lambda>ps.
       let procs = map (\<lambda>p.
                     let mem = fill_percent (info_memory_percent p) (memory_percent_call p);
                         cpu = fill_percent (info_cpu_percent p) (cpu_percent_call p);
                         pf = (case memory_info_call p of
                                 Inl e \<Rightarrow> None
                               | Inr meminfo \<Rightarrow> page_fault_attr meminfo)
                     in (mem, JObj (info_json p cpu mem @ [(''page_faults'', opt_json JInt pf)])))
                   ps
       in Inr (map snd (take n (sort_key (\<lambda>x. - fst x) procs))))"

text \<open>\<^verbatim>\<open>_get_gpu_info\<close> (lines 100-117).\<close>

definition gpu_json :: "(rat \<Rightarrow> nat \<Rightarrow> rat) \<Rightarrow> gpu \<Rightarrow> json" where
  "gpu_json rnd g =
     JObj [(''id'', JInt (gpu_id g)), (''name'', JStr (gpu_name g)),
           (''load'', JNum (rnd (gpu_load g * 100) 2)),
           (''memory_total'', JInt (py_int (memoryTotal g))),
           (''memory_used'', JInt (py_int (memoryUsed g))),
           (''memory_free'', JInt (py_int (memoryFree g))),
           (''memory_util_percent'', JNum (rnd (memoryUtil g * 100) 2)),
           (''temperature'', opt_json JNum (gpu_temperature g))]"

definition get_gpu_info :: "(rat \<Rightarrow> nat \<Rightarrow> rat) \<Rightarrow> os_env \<Rightarrow> json list" where
  "get_gpu_info rnd env =
     (case getGPUs env of
        None \<Rightarrow> []
      | Some (Inl e) \<Rightarrow> []
      | Some (Inr gs) \<Rightarrow> map (gpu_json rnd) gs)"

text \<open>
  \<^verbatim>\<open>get_interfaces_detail\<close> (lines 199-219). The last \<^verbatim>\<open>AF_LINK\<close> address of an interface is
  its \<^verbatim>\<open>mac\<close>.
\<close>

definition interface_detail ::
  "(string \<times> snicstats) list \<Rightarrow> string \<Rightarrow> snicaddr list \<Rightarrow> json"
where
  "interface_detail stats iface addr_list =
     (let links = filter (\<lambda>a. family a = AF_LINK) addr_list;
          mac = (if links = [] then None else Some (address (last links)));
          ips = map address (filter (\<lambda>a. family a \<noteq> AF_LINK \<and> is_inet a) addr_list);
          st = map_of stats iface
      in JObj [(''iface'', JStr iface), (''ips'', JList (map JStr ips)),
               (''mac'', opt_json JStr mac),
               (''is_up'', opt_json (\<lambda>s. JBool (isup s)) st),
               (''speed'', (case st of None \<Rightarrow> JNull | Some s \<Rightarrow> opt_json JInt (nic_speed s)))])"

definition get_interfaces_detail :: "os_env \<Rightarrow> json list" where
  "get_interfaces_detail env =
     (case py_bind (net_if_addrs env) (\<lambda>addrs.
             py_bind (net_if_stats env) (\<lambda>stats.
               Inr (map (\<lambda>(iface, addr_list). interface_detail stats iface addr_list) addrs))) of
        Inl e \<Rightarrow> []
      | Inr output \<Rightarrow> output)"

subsection \<open>\<^verbatim>\<open>metrics\<close> (lines 225-374)\<close>

text \<open>
  Lines 233-235 and 237-239, the same three statements in the \<^verbatim>\<open>else\<close> branch and in the
  handler: one \<^verbatim>\<open>random.randint(6, 10)\<close> per logical CPU, a single one when the count is
  \<^verbatim>\<open>None\<close> or \<open>0\<close>, and the rounded mean of these values.
\<close>

definition fallback_cpu :: "(rat \<Rightarrow> nat \<Rightarrow> rat) \<Rightarrow> os_env \<Rightarrow> (rat list \<times> rat) py" where
  "fallback_cpu rnd env =
     (let cpu_count = (case cpu_count_logical env of
                         None \<Rightarrow> 1
                       | Some n \<Rightarrow> if n = 0 then 1 else n);
          cpu_percpu = map (\<lambda>i. of_int (randint 6 10 (random_draws env i))) [0..<cpu_count]
      in py_bind (py_truediv (sum_list cpu_percpu) (of_nat (length cpu_percpu))) (\<lambda>mean.
           Inr (cpu_percpu, rnd mean 1)))"

text \<open>Lines 228-239: the per-CPU list and the overall percentage.\<close>

definition sample_cpu :: "(rat \<Rightarrow> nat \<Rightarrow> rat) \<Rightarrow> os_env \<Rightarrow> (rat list \<times> rat) py" where
  "sample_cpu rnd env =
     (case py_bind (cpu_percent env) (\<lambda>cpu_percpu.
             if cpu_percpu \<noteq> [] \<and> list_ex (\<lambda>p. 0 < p) cpu_percpu
             then py_bind (py_truediv (sum_list cpu_percpu) (of_nat (length cpu_percpu)))
                    (\<lambda>mean. Inr (cpu_percpu, rnd mean 1))
             else fallback_cpu rnd env) of
        Inl e \<Rightarrow> fallback_cpu rnd env
      | Inr r \<Rightarrow> Inr r)"

text \<open>Lines 241-253.\<close>

definition cpu_dict :: "os_env \<Rightarrow> rat list \<Rightarrow> rat \<Rightarrow> json" where
  "cpu_dict env cpu_percpu cpu_overall =
     JObj [(''cpu_percent'', JNum cpu_overall),
           (''cpu_count_logical'', opt_json (\<lambda>n. JInt (int n)) (cpu_count_logical env)),
           (''cpu_count_physical'', opt_json (\<lambda>n. JInt (int n)) (cpu_count_physical env)),
           (''per_cpu'', JList (map JNum cpu_percpu)),
           (''load_avg'',
              (case getloadavg env of
                 Some (Inr (load1, load5, load15)) \<Rightarrow>
                   JObj [(''1'', JNum load1), (''5'', JNum load5), (''15'', JNum load15)]
               | _ \<Rightarrow> JNull))]"

text \<open>Lines 256-265.\<close>

definition memory_dict :: "os_env \<Rightarrow> json" where
  "memory_dict env =
     (let vm = virtual_memory env; sm = swap_memory env
      in JObj [(''virtual_percent'', JNum (vm_percent vm)),
               (''virtual_total'', JInt (vm_total vm)),
               (''virtual_available'', JInt (vm_available vm)),
               (''swap_percent'', JNum (sw_percent sm)),
               (''swap_total'', JInt (sw_total sm)),
               (''page_faults'',
                  opt_json JInt (py_or_num (vm_pfaults vm) (py_or_num (vm_pageins vm) None)))])"

text \<open>Lines 268-285: a partition whose usage cannot be read is skipped.\<close>

definition disks_list :: "os_env \<Rightarrow> json list" where
  "disks_list env =
     (case disk_partitions env of
        Inl e \<Rightarrow> []
      | Inr parts \<Rightarrow>
          concat (map (\<lambda>part.
            (case disk_usage env (mountpoint part) of
               Inl e \<Rightarrow> []
             | Inr usage \<Rightarrow>
                 [JObj [(''device'', JStr (device part)),
                        (''mountpoint'', JStr (mountpoint part)),
                        (''fstype'', JStr (fstype part)),
                        (''percent'', JNum (du_percent usage)),
                        (''total'', JInt (du_total usage)),
                        (''free'', JInt (du_free usage)),
                        (''used'', JInt (du_used usage))]])) parts))"

text \<open>
  Lines 288-291: \<^verbatim>\<open>net_io_counters(pernic=False)._asdict()\<close>; the handler also catches the
  \<^verbatim>\<open>AttributeError\<close> of \<^verbatim>\<open>None._asdict()\<close>.
\<close>

definition network_totals :: "os_env \<Rightarrow> json" where
  "network_totals env =
     (case py_bind (net_io_counters (counter_reads env)) (\<lambda>r.
             case r of None \<Rightarrow> Inl AttributeError | Some n \<Rightarrow> Inr n) of
        Inr n \<Rightarrow>
          JObj [(''bytes_sent'', JInt (bytes_sent n)), (''bytes_recv'', JInt (bytes_recv n)),
                (''packets_sent'', opt_json JInt (packets_sent n)),
                (''packets_recv'', opt_json JInt (packets_recv n)),
                (''errin'', JInt (errin n)), (''errout'', JInt (errout n)),
                (''dropin'', JInt (dropin n)), (''dropout'', JInt (dropout n))]
      | Inl e \<Rightarrow>
          JObj [(''bytes_sent'', JInt 0), (''bytes_recv'', JInt 0),
                (''packets_sent'', JInt 0), (''packets_recv'', JInt 0),
                (''errin'', JInt 0), (''errout'', JInt 0),
                (''dropin'', JInt 0), (''dropout'', JInt 0)])"

text \<open>
  Lines 297-300. \<^verbatim>\<open>_asdict()\<close> lists every field of the tuple; the fields of \<open>sdiskio\<close>
  beyond these six differ from platform to platform and are left out here.
\<close>

definition disk_io_totals :: "os_env \<Rightarrow> json" where
  "disk_io_totals env =
     (case py_bind (disk_io_counters (counter_reads env)) (\<lambda>r.
             case r of None \<Rightarrow> Inl AttributeError | Some d \<Rightarrow> Inr d) of
        Inr d \<Rightarrow>
          JObj [(''read_count'', opt_json JInt (read_count d)),
                (''write_count'', opt_json JInt (write_count d)),
                (''read_bytes'', JInt (read_bytes d)), (''write_bytes'', JInt (write_bytes d)),
                (''read_time'', JInt (read_time d)), (''write_time'', JInt (write_time d))]
      | Inl e \<Rightarrow>
          JObj [(''read_count'', JNull), (''write_count'', JNull), (''read_bytes'', JNull),
                (''write_bytes'', JNull), (''read_time'', JNull), (''write_time'', JNull)])"

text \<open>Lines 309-318.\<close>

definition battery_dict :: "os_env \<Rightarrow> json" where
  "battery_dict env =
     (case sensors_battery env of
        Inr batt \<Rightarrow>
          JObj [(''present'', JBool (batt \<noteq> None)),
                (''percent'', opt_json (\<lambda>b. JNum (batt_percent b)) batt),
                (''secsleft'', opt_json (\<lambda>b. JInt (batt_secsleft b)) batt),
                (''power_plugged'',
                   (case batt of None \<Rightarrow> JNull
                    | Some b \<Rightarrow> opt_json JBool (batt_power_plugged b)))]
      | Inl e \<Rightarrow>
          JObj [(''present'', JBool False), (''percent'', JNull), (''secsleft'', JNull),
                (''power_plugged'', JNull)])"

text \<open>
  Lines 325-338 and 369. Here the loop over \<^verbatim>\<open>psutil.process_iter\<close> stands inside an outer
  \<^verbatim>\<open>try\<close>, whose handler clears \<^verbatim>\<open>pf_available\<close>.
\<close>

definition page_faults_total :: "os_env \<Rightarrow> int option" where
  "page_faults_total env =
     (case process_iter env of
        Inl e \<Rightarrow> None
      | Inr ps \<Rightarrow>
          (let (total_pf, pf_available) =
                 fold (\<lambda>p (total_pf, pf_available).
                         (case memory_info_call p of
                            Inl e \<Rightarrow> (total_pf, pf_available)
                          | Inr mi \<Rightarrow>
                              (case page_fault_attr mi of
                                 None \<Rightarrow> (total_pf, pf_available)
                               | Some pf \<Rightarrow> (total_pf + pf, True))))
                   ps (0, False)
           in if pf_available then Some total_pf else None))"

text \<open>The dict \<^verbatim>\<open>speeds\<close> as JSON (its three entries are read on lines 359-361).\<close>

definition net_speeds_json :: "net_speeds \<Rightarrow> json" where
  "net_speeds_json s =
     JObj [(''bytes_sent_per_sec'', JNum (bytes_sent_per_sec s)),
           (''bytes_recv_per_sec'', JNum (bytes_recv_per_sec s))]"

definition nic_speeds_json :: "nic_speeds \<Rightarrow> json" where
  "nic_speeds_json s =
     JObj [(''bytes_sent_per_sec'', JNum (nic_bytes_sent_per_sec s)),
           (''bytes_recv_per_sec'', JNum (nic_bytes_recv_per_sec s)),
           (''packets_sent'', opt_json JInt (nic_packets_sent s)),
           (''packets_recv'', opt_json JInt (nic_packets_recv s))]"

definition disk_speeds_json :: "disk_speeds \<Rightarrow> json" where
  "disk_speeds_json s =
     JObj [(''read_bytes_per_sec'', JNum (read_bytes_per_sec s)),
           (''write_bytes_per_sec'', JNum (write_bytes_per_sec s)),
           (''read_count'', opt_json JInt (disk_read_count s)),
           (''write_count'', opt_json JInt (disk_write_count s))]"

text \<open>
  The endpoint. The result pairs what the view function returns, the dict given to
  \<^verbatim>\<open>jsonify\<close> or the exception that leaves it, with the global \<^verbatim>\<open>_prev_snapshot\<close> afterwards.
\<close>

definition metrics ::
  "(rat \<Rightarrow> nat \<Rightarrow> rat) \<Rightarrow> os_env \<Rightarrow> snapshot \<Rightarrow> (string \<times> json) list py \<times> snapshot"
where
  "metrics rnd env snap =
     (case sample_cpu rnd env of
        Inl e \<Rightarrow> (Inl e, snap)
      | Inr (cpu_percpu, cpu_overall) \<Rightarrow>
          (let cpu = cpu_dict env cpu_percpu cpu_overall;
               memory = memory_dict env;
               disks = disks_list env;
               net = network_totals env
           in case get_io_and_net_speeds (time_time env) (counter_reads env) snap of
                Inl e \<Rightarrow> (Inl e, snap)
              | Inr (speeds, snap') \<Rightarrow>
                  (let disk_io_tot = disk_io_totals env;
                       gpus = get_gpu_info rnd env;
                       interfaces = get_interfaces_detail env;
                       battery = battery_dict env
                   in (py_bind (get_top_processes_by_cpu 8 env) (\<lambda>procs_cpu.
                       py_bind (get_top_processes_by_memory 8 env) (\<lambda>procs_mem.
                       let total_pf = page_faults_total env;
                           sysinfo = get_system_info env;
                           timestamp = utcnow_isoformat env;
                           connections_count =
                             (case net_connections env of
                                Inl e \<Rightarrow> 0 | Inr conns \<Rightarrow> int (length conns));
                           uptime =
                             (case py_bind (boot_time env) (fromtimestamp_isoformat env) of
                                Inl e \<Rightarrow> None | Inr stamp \<Rightarrow> Some stamp)
                       in Inr [(''cpu'', cpu),
                               (''memory'', memory),
                               (''disks'', JList disks),
                               (''network_totals'', net),
                               (''network_speeds'', net_speeds_json (speeds_net speeds)),
                               (''per_nic_speeds'',
                                  JObj (map (\<lambda>(nic, e). (nic, nic_speeds_json e))
                                          (speeds_per_nic speeds))),
                               (''disk_io_speeds'', disk_speeds_json (speeds_disk_io speeds)),
                               (''disk_io_totals'', disk_io_tot),
                               (''gpu'', JList gpus),
                               (''system_info'', sysinfo),
                               (''interfaces'', JList interfaces),
                               (''battery'', battery),
                               (''top_processes_cpu'', JList procs_cpu),
                               (''top_processes_mem'', JList procs_mem),
                               (''page_faults_total'', opt_json JInt total_pf),
                               (''uptime_boot_time'', opt_json JStr uptime),
                               (''timestamp'', JStr timestamp),
                               (''connections_count'', JInt connections_count),
                               (''message'', JNull)])),
                      snap'))))"

section \<open>Sample inputs\<close>

text \<open>Concrete counter readings on which the theorems below are instantiated.\<close>

definition sample_counters :: "int \<Rightarrow> int \<Rightarrow> snetio" where
  "sample_counters sent recv =
     \<lparr>bytes_sent = sent, bytes_recv = recv,
      packets_sent = Some (sent + 1), packets_recv = Some (recv + 2),
      errin = 0, errout = 0, dropin = 0, dropout = 0\<rparr>"

definition sample_disk :: "int \<Rightarrow> int \<Rightarrow> sdiskio" where
  "sample_disk rd wr =
     \<lparr>read_count = Some 3, write_count = Some 4, read_bytes = rd, write_bytes = wr,
      read_time = 0, write_time = 0\<rparr>"

text \<open>A poll whose reads all succeed, with two interfaces.\<close>

definition sample_source :: "int \<Rightarrow> int \<Rightarrow> int \<Rightarrow> counter_source" where
  "sample_source sent recv rd =
     \<lparr>net_io_counters = Inr (Some (sample_counters sent recv)),
      net_io_counters_pernic =
        Inr [(''eth0'', sample_counters sent recv), (''lo'', sample_counters 50 50)],
      disk_io_counters = Inr (Some (sample_disk rd 800))\<rparr>"


text \<open>
  A poll in which every counter reads lower than in \<open>sample_snapshot\<close> below.
\<close>

definition decreased_source :: counter_source where
  "decreased_source =
     \<lparr>net_io_counters = Inr (Some (sample_counters 40 30)),
      net_io_counters_pernic =
        Inr [(''eth0'', sample_counters 40 30), (''lo'', sample_counters 50 50)],
      disk_io_counters = Inr (Some (sample_disk 200 500))\<rparr>"

text \<open>
  A stored sample taken at time \<open>1\<close>, with interfaces \<^verbatim>\<open>eth0\<close> and \<^verbatim>\<open>wlan0\<close>.
\<close>

definition sample_snapshot :: snapshot where
  "sample_snapshot =
     \<lparr>snap_time = Some 1, snap_net = Some (sample_counters 100 100),
      snap_net_pernic =
        Some [(''eth0'', sample_counters 100 100), (''wlan0'', sample_counters 70 70)],
      snap_disk_io = Some (sample_disk 500 800)\<rparr>"

text \<open>
  A host with two logical CPUs whose per-CPU sampling reads all zero, one process, no GPU
  library and no battery.
\<close>

definition sample_process :: process where
  "sample_process =
     \<lparr>pid = 1, proc_name = Some ''init'', proc_username = Some ''root'',
      info_cpu_percent = Some 1, info_memory_percent = None, proc_cmdline = None,
      cpu_percent_call = Inr 1, memory_percent_call = Inr 2,
      memory_info_call = Inr \<lparr>num_page_faults = None, pfaults = None, page_faults = None\<rparr>\<rparr>"

definition sample_env :: os_env where
  "sample_env =
     \<lparr>cpu_percent = Inr [0, 0],
      cpu_count_logical = Some 2,
      cpu_count_physical = Some 1,
      random_draws = (\<lambda>i. 3 * i + 2),
      getloadavg = None,
      virtual_memory = \<lparr>vm_percent = 40, vm_total = 8000, vm_available = 4800,
                        vm_pfaults = None, vm_pageins = None\<rparr>,
      swap_memory = \<lparr>sw_percent = 0, sw_total = 0\<rparr>,
      disk_partitions = Inl OSError,
      disk_usage = (\<lambda>m. Inl OSError),
      counter_reads = sample_source 300 400 600,
      time_time = 2,
      getGPUs = None,
      net_if_addrs = Inl OSError,
      net_if_stats = Inl OSError,
      sensors_battery = Inr None,
      process_iter = Inr [sample_process],
      gethostname = ''host'',
      platform_system = ''Linux'',
      platform_platform = ''Linux-6'',
      platform_processor = ''x86_64'',
      platform_machine = ''x86_64'',
      utcnow_isoformat = ''2024-01-01T00:00:00'',
      net_connections = Inl OSError,
      boot_time = Inl OSError,
      fromtimestamp_isoformat = (\<lambda>t. Inl OSError)\<rparr>"

section \<open>Properties of \<^verbatim>\<open>_calc_speed\<close>\<close>

lemma eps_pos: "0 < eps"
  by (simp add: eps_def)

lemma max_eps_nonzero: "max e eps \<noteq> 0"
  using eps_pos by (simp add: max_def)

lemma max_eps_floor: "e \<le> 0 \<Longrightarrow> max e eps = eps"
  using eps_pos by (simp add: max_def)

lemma calc_speed_Some:
  "calc_speed now prev (Some a) (Some b) =
     Inr (of_int (a - (if b = 0 then a else b))
          / max (now - (case prev of None \<Rightarrow> now | Some p \<Rightarrow> if p = 0 then now else p)) eps)"
  by (cases prev)
     (simp_all add: calc_speed_def py_bind_def py_sub_def py_or_num_def truthy_num_def
        py_try_def py_truediv_def Let_def max_eps_nonzero)

lemma calc_speed_None_now: "calc_speed now prev None prev_val = Inr 0"
  by (cases prev; cases prev_val)
     (simp_all add: calc_speed_def py_bind_def py_sub_def py_or_num_def truthy_num_def
        py_try_def Let_def)

lemma calc_speed_None_prev: "calc_speed now prev now_val None = Inr 0"
  by (cases prev; cases now_val)
     (simp_all add: calc_speed_def py_bind_def py_sub_def py_or_num_def truthy_num_def
        py_try_def py_truediv_def Let_def max_eps_nonzero)

lemma calc_speed_total: "\<exists>r. calc_speed now prev now_val prev_val = Inr r"
proof (cases now_val)
  case None
  then show ?thesis by (simp add: calc_speed_None_now)
next
  case (Some a)
  show ?thesis
  proof (cases prev_val)
    case None
    then show ?thesis by (simp add: calc_speed_None_prev)
  next
    case (Some b)
    with \<open>now_val = Some a\<close> show ?thesis by (simp add: calc_speed_Some)
  qed
qed

text \<open>
  Claim C4. \<^verbatim>\<open>_calc_speed\<close> returns a number for every timestamp, stored timestamp and
  pair of counter values, present or \<^verbatim>\<open>None\<close>: no exception leaves it. When the elapsed time
  \<open>now - p\<close> is zero or negative the divisor is the floor \<open>eps = 1e-6\<close>: the rate is the
  counter difference \<^verbatim>\<open>now_val - (prev_val or now_val)\<close> divided by \<open>eps\<close>, and no division
  fault occurs. A missing counter value, current or previous, gives the rate \<open>0\<close>.
\<close>

theorem calc_speed_never_raises_floor_missing:
  "(\<exists>r. calc_speed now prev now_val prev_val = Inr r)
   \<and> (now \<le> p \<longrightarrow>
        calc_speed now (Some p) (Some a) (Some b)
          = Inr (of_int (a - (if b = 0 then a else b)) / eps))
   \<and> calc_speed now prev None prev_val = Inr 0
   \<and> calc_speed now prev now_val None = Inr 0"
proof -
  have floor: "calc_speed now (Some p) (Some a) (Some b)
      = Inr (of_int (a - (if b = 0 then a else b)) / eps)"
    if "now \<le> p"
  proof -
    have "max (now - (if p = 0 then now else p)) eps = eps"
      using that by (intro max_eps_floor) simp
    then show ?thesis by (simp add: calc_speed_Some)
  qed
  show ?thesis
    using floor calc_speed_total [of now prev now_val prev_val]
    by (simp add: calc_speed_None_now calc_speed_None_prev)
qed

theorem calc_speed_never_raises_floor_missing_witness:
  "(5::rat) \<le> 5
   \<and> calc_speed 5 (Some 5) (Some 1500) (Some 1000) = Inr ((1500 - 1000) / eps)
   \<and> (1500 - 1000) / eps = 500000000
   \<and> calc_speed 5 (Some 5) None (Some 1000) = Inr 0
   \<and> calc_speed 5 (Some 5) (Some 1500) None = Inr 0"
  using calc_speed_never_raises_floor_missing
          [of 5 "Some 5" "Some 1500" "Some 1000" 5 1500 1000]
        calc_speed_never_raises_floor_missing
          [of 5 "Some 5" "None" "Some 1000" 5 1500 1000]
        calc_speed_never_raises_floor_missing
          [of 5 "Some 5" "Some 1500" "None" 5 1500 1000]
  by (simp add: eps_def)

section \<open>Properties of \<^verbatim>\<open>get_io_and_net_speeds\<close>\<close>

lemma prev_time_and_None [simp]: "prev_time_and None x = None"
  by (simp add: prev_time_and_def truthy_num_def)

lemma prev_time_and_Some:
  "prev_time_and (Some t) x = (if t = 0 then None else x)"
  by (simp add: prev_time_and_def truthy_num_def)

lemma read_net_ok:
  "net_io_counters src = Inr net \<Longrightarrow> net_io_counters_pernic src = Inr net_pernic
   \<Longrightarrow> read_net src = (net, net_pernic)"
  by (simp add: read_net_def py_bind_def)



lemma read_disk_io_ok: "disk_io_counters src = Inr d \<Longrightarrow> read_disk_io src = d"
  by (simp add: read_disk_io_def)


subsection \<open>The blocks in closed form\<close>

lemma net_block_cold:
  "prev_time_and prev_time prev_net = None \<Longrightarrow>
   net_block now prev_time prev_net net = Inr \<lparr>bytes_sent_per_sec = 0, bytes_recv_per_sec = 0\<rparr>"
  by (simp add: net_block_def split: option.splits)

lemma net_block_warm:
  "prev_time_and prev_time prev_net = Some pn \<Longrightarrow>
   net_block now prev_time prev_net (Some n) =
     Inr \<lparr>bytes_sent_per_sec =
            projr (calc_speed now prev_time (Some (bytes_sent n)) (Some (bytes_sent pn))),
          bytes_recv_per_sec =
            projr (calc_speed now prev_time (Some (bytes_recv n)) (Some (bytes_recv pn)))\<rparr>"
  by (simp add: net_block_def py_bind_def calc_speed_Some)

lemma net_block_total: "\<exists>r. net_block now prev_time prev_net net = Inr r"
  by (cases net; cases "prev_time_and prev_time prev_net")
     (simp_all add: net_block_def py_bind_def calc_speed_Some)

lemma disk_block_cold:
  "prev_time_and prev_time prev_disk_io = None \<Longrightarrow>
   \<exists>r. disk_block now prev_time prev_disk_io disk_io = Inr r
       \<and> read_bytes_per_sec r = 0 \<and> write_bytes_per_sec r = 0"
  by (simp add: disk_block_def split: option.splits)

lemma disk_block_warm:
  "prev_time_and prev_time prev_disk_io = Some pd \<Longrightarrow>
   disk_block now prev_time prev_disk_io (Some d) =
     Inr \<lparr>read_bytes_per_sec =
            projr (calc_speed now prev_time (Some (read_bytes d)) (Some (read_bytes pd))),
          write_bytes_per_sec =
            projr (calc_speed now prev_time (Some (write_bytes d)) (Some (write_bytes pd))),
          disk_read_count = read_count d, disk_write_count = write_count d\<rparr>"
  by (simp add: disk_block_def py_bind_def calc_speed_Some)

lemma disk_block_total: "\<exists>r. disk_block now prev_time prev_disk_io disk_io = Inr r"
  by (cases disk_io; cases "prev_time_and prev_time prev_disk_io")
     (simp_all add: disk_block_def py_bind_def calc_speed_Some)

text \<open>The previous counters of an interface, as line 168 looks them up.\<close>

lemma nic_entry_cold:
  "prev_time_and prev_time
     (case prev_net_pernic of None \<Rightarrow> None | Some d \<Rightarrow> if d = [] then None else map_of d nic)
     = None \<Longrightarrow>
   nic_entry now prev_time prev_net_pernic nic counters =
     Inr \<lparr>nic_bytes_sent_per_sec = 0, nic_bytes_recv_per_sec = 0,
          nic_packets_sent = packets_sent counters, nic_packets_recv = packets_recv counters\<rparr>"
  by (simp add: nic_entry_def py_bind_def)

lemma nic_entry_warm:
  "prev_time_and prev_time
     (case prev_net_pernic of None \<Rightarrow> None | Some d \<Rightarrow> if d = [] then None else map_of d nic)
     = Some pc \<Longrightarrow>
   nic_entry now prev_time prev_net_pernic nic counters =
     Inr \<lparr>nic_bytes_sent_per_sec =
            projr (calc_speed now prev_time (Some (bytes_sent counters)) (Some (bytes_sent pc))),
          nic_bytes_recv_per_sec =
            projr (calc_speed now prev_time (Some (bytes_recv counters)) (Some (bytes_recv pc))),
          nic_packets_sent = packets_sent counters, nic_packets_recv = packets_recv counters\<rparr>"
  by (simp add: nic_entry_def py_bind_def calc_speed_Some)

lemma nic_entry_total:
  "\<exists>e. nic_entry now prev_time prev_net_pernic nic counters = Inr e
       \<and> nic_packets_sent e = packets_sent counters
       \<and> nic_packets_recv e = packets_recv counters"
proof (cases "prev_time_and prev_time
     (case prev_net_pernic of None \<Rightarrow> None | Some d \<Rightarrow> if d = [] then None else map_of d nic)")
  case None
  then show ?thesis by (simp add: nic_entry_cold)
next
  case (Some pc)
  then show ?thesis by (simp add: nic_entry_warm)
qed

subsection \<open>The loop over the interfaces\<close>

lemma set_update_subset: "set (AList.update k v al) \<subseteq> insert (k, v) (set al)"
  by (induction al) auto

lemma per_nic_loop_total:
  "\<exists>res. per_nic_loop now prev_time prev_net_pernic items acc = Inr res"
proof (induction items arbitrary: acc)
  case Nil
  show ?case by simp
next
  case (Cons item items)
  obtain nic counters where item: "item = (nic, counters)" by (cases item)
  obtain e where "nic_entry now prev_time prev_net_pernic nic counters = Inr e"
    using nic_entry_total by blast
  then show ?case using Cons.IH [of "AList.update nic e acc"] item
    by (simp add: py_bind_def)
qed

lemma per_nic_loop_keys:
  "per_nic_loop now prev_time prev_net_pernic items acc = Inr res \<Longrightarrow>
   fst ` set res = fst ` set acc \<union> fst ` set items"
proof (induction items arbitrary: acc)
  case Nil
  then show ?case by simp
next
  case (Cons item items)
  obtain nic counters where item: "item = (nic, counters)" by (cases item)
  obtain e where e: "nic_entry now prev_time prev_net_pernic nic counters = Inr e"
    using nic_entry_total by blast
  with Cons.prems item
  have "per_nic_loop now prev_time prev_net_pernic items (AList.update nic e acc) = Inr res"
    by (simp add: py_bind_def)
  from Cons.IH [OF this] show ?case using item
    by (simp add: AList.dom_update)
qed

lemma per_nic_loop_map_of:
  "distinct (map fst items) \<Longrightarrow>
   per_nic_loop now prev_time prev_net_pernic items acc = Inr res \<Longrightarrow>
   map_of res nic =
     (case map_of items nic of
        Some counters \<Rightarrow> Some (projr (nic_entry now prev_time prev_net_pernic nic counters))
      | None \<Rightarrow> map_of acc nic)"
proof (induction items arbitrary: acc)
  case Nil
  then show ?case by simp
next
  case (Cons item items)
  obtain k counters where item: "item = (k, counters)" by (cases item)
  obtain e where e: "nic_entry now prev_time prev_net_pernic k counters = Inr e"
    using nic_entry_total by blast
  with Cons.prems item
  have loop: "per_nic_loop now prev_time prev_net_pernic items (AList.update k e acc) = Inr res"
    by (simp add: py_bind_def)
  from Cons.prems item have dist: "distinct (map fst items)" and fresh: "k \<notin> fst ` set items"
    by auto
  from fresh have none: "map_of items k = None"
    by (simp add: map_of_eq_None_iff)
  show ?case
    using Cons.IH [OF dist loop] item e none
    by (auto simp add: AList.update_conv' split: option.splits)
qed

lemma per_nic_loop_entries:
  "per_nic_loop now prev_time prev_net_pernic items acc = Inr res \<Longrightarrow>
   (k, e) \<in> set res \<Longrightarrow>
   (k, e) \<in> set acc
   \<or> (\<exists>c. (k, c) \<in> set items \<and> nic_entry now prev_time prev_net_pernic k c = Inr e)"
proof (induction items arbitrary: acc)
  case Nil
  then show ?case by simp
next
  case (Cons item items)
  obtain nic counters where item: "item = (nic, counters)" by (cases item)
  obtain e' where e': "nic_entry now prev_time prev_net_pernic nic counters = Inr e'"
    using nic_entry_total by blast
  with Cons.prems(1) item
  have "per_nic_loop now prev_time prev_net_pernic items (AList.update nic e' acc) = Inr res"
    by (simp add: py_bind_def)
  from Cons.IH [OF this Cons.prems(2)]
  consider "(k, e) \<in> set (AList.update nic e' acc)"
    | c where "(k, c) \<in> set items" "nic_entry now prev_time prev_net_pernic k c = Inr e"
    by blast
  then show ?case
  proof cases
    case 1
    then have "(k, e) = (nic, e') \<or> (k, e) \<in> set acc"
      using set_update_subset [of nic e' acc] by blast
    then show ?thesis using item e' by auto
  next
    case 2
    then show ?thesis by auto
  qed
qed

subsection \<open>The whole poll\<close>

lemma get_io_and_net_speeds_eq:
  "get_io_and_net_speeds now src snap =
     Inr (\<lparr>speeds_net = projr (net_block now (snap_time snap) (snap_net snap) (fst (read_net src))),
          speeds_per_nic =
            projr (per_nic_block now (snap_time snap) (snap_net_pernic snap) (snd (read_net src))),
          speeds_disk_io =
            projr (disk_block now (snap_time snap) (snap_disk_io snap) (read_disk_io src))\<rparr>,
         \<lparr>snap_time = Some now, snap_net = fst (read_net src),
          snap_net_pernic = Some (snd (read_net src)), snap_disk_io = read_disk_io src\<rparr>)"
proof -
  obtain a where a: "net_block now (snap_time snap) (snap_net snap) (fst (read_net src)) = Inr a"
    using net_block_total by blast
  obtain b where b:
    "per_nic_block now (snap_time snap) (snap_net_pernic snap) (snd (read_net src)) = Inr b"
    using per_nic_loop_total by (fastforce simp add: per_nic_block_def)
  obtain c where c:
    "disk_block now (snap_time snap) (snap_disk_io snap) (read_disk_io src) = Inr c"
    using disk_block_total by blast
  show ?thesis
    by (simp add: get_io_and_net_speeds_def Let_def case_prod_beta py_bind_def a b c)
qed

lemma per_nic_block_keys:
  "fst ` set (projr (per_nic_block now prev_time prev_net_pernic net_pernic))
     = fst ` set net_pernic"
proof (cases "net_pernic = []")
  case True
  then show ?thesis by (simp add: per_nic_block_def)
next
  case False
  obtain res where res: "per_nic_loop now prev_time prev_net_pernic net_pernic [] = Inr res"
    using per_nic_loop_total by blast
  from per_nic_loop_keys [OF res] False res show ?thesis
    by (simp add: per_nic_block_def)
qed

lemma per_nic_block_entries:
  assumes "(k, e) \<in> set (projr (per_nic_block now prev_time prev_net_pernic net_pernic))"
  shows "\<exists>c. (k, c) \<in> set net_pernic \<and> nic_entry now prev_time prev_net_pernic k c = Inr e"
proof (cases "net_pernic = []")
  case True
  with assms show ?thesis by (simp add: per_nic_block_def)
next
  case False
  obtain res where res: "per_nic_loop now prev_time prev_net_pernic net_pernic [] = Inr res"
    using per_nic_loop_total by blast
  with False assms have "(k, e) \<in> set res" by (simp add: per_nic_block_def)
  from per_nic_loop_entries [OF res this] show ?thesis by simp
qed

lemma per_nic_block_map_of:
  assumes "distinct (map fst net_pernic)"
  shows "map_of (projr (per_nic_block now prev_time prev_net_pernic net_pernic)) nic =
           map_option (\<lambda>c. projr (nic_entry now prev_time prev_net_pernic nic c))
             (map_of net_pernic nic)"
proof (cases "net_pernic = []")
  case True
  then show ?thesis by (simp add: per_nic_block_def)
next
  case False
  obtain res where res: "per_nic_loop now prev_time prev_net_pernic net_pernic [] = Inr res"
    using per_nic_loop_total by blast
  from per_nic_loop_map_of [OF assms res, of nic] False res show ?thesis
    by (simp add: per_nic_block_def split: option.splits)
qed

lemma poll_per_nic_keys:
  assumes "get_io_and_net_speeds now src snap = Inr (sp, snap')"
  shows "fst ` set (speeds_per_nic sp) = fst ` set (snd (read_net src))"
proof -
  from assms have "speeds_per_nic sp =
      projr (per_nic_block now (snap_time snap) (snap_net_pernic snap) (snd (read_net src)))"
    by (auto simp add: get_io_and_net_speeds_eq)
  then show ?thesis by (simp only: per_nic_block_keys)
qed

lemma poll_snapshot:
  assumes "get_io_and_net_speeds now src snap = Inr (sp, snap')"
  shows "snap' = \<lparr>snap_time = Some now, snap_net = fst (read_net src),
                  snap_net_pernic = Some (snd (read_net src)),
                  snap_disk_io = read_disk_io src\<rparr>"
  using assms by (auto simp add: get_io_and_net_speeds_eq)

lemma poll_returns: "\<exists>sp snap'. get_io_and_net_speeds now src snap = Inr (sp, snap')"
  by (simp add: get_io_and_net_speeds_eq)


lemma poll_net_warm:
  assumes "get_io_and_net_speeds now src snap = Inr (sp, snap')"
    and "snap_time snap = Some t" and "t \<noteq> 0" and "snap_net snap = Some pn"
    and "fst (read_net src) = Some n"
  shows "bytes_sent_per_sec (speeds_net sp) =
           of_int (bytes_sent n - (if bytes_sent pn = 0 then bytes_sent n else bytes_sent pn))
             / max (now - t) eps"
    and "bytes_recv_per_sec (speeds_net sp) =
           of_int (bytes_recv n - (if bytes_recv pn = 0 then bytes_recv n else bytes_recv pn))
             / max (now - t) eps"
proof -
  from assms(1) have sel: "speeds_net sp =
      projr (net_block now (snap_time snap) (snap_net snap) (fst (read_net src)))"
    by (auto simp add: get_io_and_net_speeds_eq)
  have warm: "prev_time_and (Some t) (Some pn) = Some pn"
    using assms(3) by (simp add: prev_time_and_Some)
  show "bytes_sent_per_sec (speeds_net sp) =
           of_int (bytes_sent n - (if bytes_sent pn = 0 then bytes_sent n else bytes_sent pn))
             / max (now - t) eps"
    using assms(3) unfolding sel assms(2,4,5) net_block_warm [OF warm]
    by (simp add: calc_speed_Some)
  show "bytes_recv_per_sec (speeds_net sp) =
           of_int (bytes_recv n - (if bytes_recv pn = 0 then bytes_recv n else bytes_recv pn))
             / max (now - t) eps"
    using assms(3) unfolding sel assms(2,4,5) net_block_warm [OF warm]
    by (simp add: calc_speed_Some)
qed


lemma poll_disk_warm:
  assumes "get_io_and_net_speeds now src snap = Inr (sp, snap')"
    and "snap_time snap = Some t" and "t \<noteq> 0" and "snap_disk_io snap = Some pd"
    and "read_disk_io src = Some d"
  shows "read_bytes_per_sec (speeds_disk_io sp) =
           of_int (read_bytes d - (if read_bytes pd = 0 then read_bytes d else read_bytes pd))
             / max (now - t) eps"
    and "write_bytes_per_sec (speeds_disk_io sp) =
           of_int (write_bytes d - (if write_bytes pd = 0 then write_bytes d else write_bytes pd))
             / max (now - t) eps"
proof -
  from assms(1) have sel: "speeds_disk_io sp =
      projr (disk_block now (snap_time snap) (snap_disk_io snap) (read_disk_io src))"
    by (auto simp add: get_io_and_net_speeds_eq)
  have warm: "prev_time_and (Some t) (Some pd) = Some pd"
    using assms(3) by (simp add: prev_time_and_Some)
  show "read_bytes_per_sec (speeds_disk_io sp) =
           of_int (read_bytes d - (if read_bytes pd = 0 then read_bytes d else read_bytes pd))
             / max (now - t) eps"
    using assms(3) unfolding sel assms(2,4,5) disk_block_warm [OF warm]
    by (simp add: calc_speed_Some)
  show "write_bytes_per_sec (speeds_disk_io sp) =
           of_int (write_bytes d - (if write_bytes pd = 0 then write_bytes d else write_bytes pd))
             / max (now - t) eps"
    using assms(3) unfolding sel assms(2,4,5) disk_block_warm [OF warm]
    by (simp add: calc_speed_Some)
qed


lemma poll_nic_warm:
  assumes "get_io_and_net_speeds now src snap = Inr (sp, snap')"
    and "snap_time snap = Some t" and "t \<noteq> 0" and "snap_net_pernic snap = Some prev"
    and "map_of prev nic = Some pc"
    and "distinct (map fst (snd (read_net src)))"
    and "map_of (snd (read_net src)) nic = Some c"
  shows "\<exists>e. map_of (speeds_per_nic sp) nic = Some e
     \<and> nic_bytes_sent_per_sec e =
           of_int (bytes_sent c - (if bytes_sent pc = 0 then bytes_sent c else bytes_sent pc))
             / max (now - t) eps
     \<and> nic_bytes_recv_per_sec e =
           of_int (bytes_recv c - (if bytes_recv pc = 0 then bytes_recv c else bytes_recv pc))
             / max (now - t) eps"
proof -
  from assms(1) have sel: "speeds_per_nic sp =
      projr (per_nic_block now (Some t) (Some prev) (snd (read_net src)))"
    by (auto simp add: get_io_and_net_speeds_eq assms(2,4))
  from assms(5) have ne: "prev \<noteq> []" by auto
  have warm: "prev_time_and (Some t)
          (case Some prev of None \<Rightarrow> None
           | Some d \<Rightarrow> if d = [] then None else map_of d nic) = Some pc"
    using assms(3,5) ne by (simp add: prev_time_and_Some)
  have "map_of (speeds_per_nic sp) nic =
      Some (projr (nic_entry now (Some t) (Some prev) nic c))"
    unfolding sel per_nic_block_map_of [OF assms(6)] by (simp add: assms(7))
  then show ?thesis
    using assms(3) by (simp add: nic_entry_warm [OF warm] calc_speed_Some)
qed




text \<open>
  Claim C2. When the stored timestamp is absent (as at process start), a poll returns without
  raising, every rate it reports is \<open>0\<close> whatever the counters read (the aggregate network
  rates, the rates of every interface, whose keys are those of the current per-interface
  dict, and the disk rates), and the store afterwards holds the current timestamp and the
  counters of this poll: \<open>read_net\<close> and \<open>read_disk_io\<close> are the values lines 130-140 leave
  in \<^verbatim>\<open>net\<close>, \<^verbatim>\<open>net_pernic\<close> and \<^verbatim>\<open>disk_io\<close>, which are the values read when the reads succeed.
\<close>

theorem first_poll_all_rates_zero:
  assumes "snap_time snap = None"
  shows "\<exists>sp snap'. get_io_and_net_speeds now src snap = Inr (sp, snap')
     \<and> bytes_sent_per_sec (speeds_net sp) = 0 \<and> bytes_recv_per_sec (speeds_net sp) = 0
     \<and> (\<forall>(nic, e) \<in> set (speeds_per_nic sp).
           nic_bytes_sent_per_sec e = 0 \<and> nic_bytes_recv_per_sec e = 0)
     \<and> fst ` set (speeds_per_nic sp) = fst ` set (snd (read_net src))
     \<and> read_bytes_per_sec (speeds_disk_io sp) = 0 \<and> write_bytes_per_sec (speeds_disk_io sp) = 0
     \<and> snap' = \<lparr>snap_time = Some now, snap_net = fst (read_net src),
                 snap_net_pernic = Some (snd (read_net src)), snap_disk_io = read_disk_io src\<rparr>
     \<and> (\<forall>net net_pernic disk_io.
           net_io_counters src = Inr net \<and> net_io_counters_pernic src = Inr net_pernic
           \<and> disk_io_counters src = Inr disk_io \<longrightarrow>
           snap' = \<lparr>snap_time = Some now, snap_net = net,
                    snap_net_pernic = Some net_pernic, snap_disk_io = disk_io\<rparr>)"
proof -
  define s_net where
    "s_net = projr (net_block now (snap_time snap) (snap_net snap) (fst (read_net src)))"
  define s_nic where
    "s_nic = projr (per_nic_block now (snap_time snap) (snap_net_pernic snap) (snd (read_net src)))"
  define s_disk where
    "s_disk = projr (disk_block now (snap_time snap) (snap_disk_io snap) (read_disk_io src))"
  define sp where
    "sp = \<lparr>speeds_net = s_net, speeds_per_nic = s_nic, speeds_disk_io = s_disk\<rparr>"
  define snap' where
    "snap' = \<lparr>snap_time = Some now, snap_net = fst (read_net src),
              snap_net_pernic = Some (snd (read_net src)), snap_disk_io = read_disk_io src\<rparr>"
  have run: "get_io_and_net_speeds now src snap = Inr (sp, snap')"
    unfolding sp_def snap'_def s_net_def s_nic_def s_disk_def
    by (rule get_io_and_net_speeds_eq)
  have net: "bytes_sent_per_sec s_net = 0" "bytes_recv_per_sec s_net = 0"
    unfolding s_net_def using assms by (simp_all add: net_block_cold)
  have disk: "read_bytes_per_sec s_disk = 0" "write_bytes_per_sec s_disk = 0"
    unfolding s_disk_def
    using assms disk_block_cold [of None "snap_disk_io snap" now "read_disk_io src"]
    by auto
  have keys: "fst ` set s_nic = fst ` set (snd (read_net src))"
    unfolding s_nic_def by (rule per_nic_block_keys)
  have nics: "\<forall>(nic, e) \<in> set s_nic. nic_bytes_sent_per_sec e = 0 \<and> nic_bytes_recv_per_sec e = 0"
  proof (clarify)
    fix nic e
    assume "(nic, e) \<in> set s_nic"
    then obtain c where "nic_entry now None (snap_net_pernic snap) nic c = Inr e"
      unfolding s_nic_def using assms per_nic_block_entries by fastforce
    then show "nic_bytes_sent_per_sec e = 0 \<and> nic_bytes_recv_per_sec e = 0"
      by (auto simp add: nic_entry_cold)
  qed
  have store: "\<forall>net net_pernic disk_io.
      net_io_counters src = Inr net \<and> net_io_counters_pernic src = Inr net_pernic
      \<and> disk_io_counters src = Inr disk_io \<longrightarrow>
      snap' = \<lparr>snap_time = Some now, snap_net = net,
               snap_net_pernic = Some net_pernic, snap_disk_io = disk_io\<rparr>"
    unfolding snap'_def by (simp add: read_net_ok read_disk_io_ok)
  have sel: "speeds_net sp = s_net" "speeds_per_nic sp = s_nic" "speeds_disk_io sp = s_disk"
    by (simp_all add: sp_def)
  show ?thesis
  proof (intro exI conjI)
    show "get_io_and_net_speeds now src snap = Inr (sp, snap')" by (rule run)
    show "bytes_sent_per_sec (speeds_net sp) = 0" by (simp add: sel net)
    show "bytes_recv_per_sec (speeds_net sp) = 0" by (simp add: sel net)
    show "\<forall>(nic, e) \<in> set (speeds_per_nic sp).
            nic_bytes_sent_per_sec e = 0 \<and> nic_bytes_recv_per_sec e = 0"
      unfolding sel by (rule nics)
    show "fst ` set (speeds_per_nic sp) = fst ` set (snd (read_net src))"
      unfolding sel by (rule keys)
    show "read_bytes_per_sec (speeds_disk_io sp) = 0" by (simp add: sel disk)
    show "write_bytes_per_sec (speeds_disk_io sp) = 0" by (simp add: sel disk)
    show "snap' = \<lparr>snap_time = Some now, snap_net = fst (read_net src),
                    snap_net_pernic = Some (snd (read_net src)),
                    snap_disk_io = read_disk_io src\<rparr>"
      by (rule snap'_def)
    show "\<forall>net net_pernic disk_io.
      net_io_counters src = Inr net \<and> net_io_counters_pernic src = Inr net_pernic
      \<and> disk_io_counters src = Inr disk_io \<longrightarrow>
      snap' = \<lparr>snap_time = Some now, snap_net = net,
               snap_net_pernic = Some net_pernic, snap_disk_io = disk_io\<rparr>"
      by (rule store)
  qed
qed

theorem first_poll_all_rates_zero_witness:
  "snap_time initial_snapshot = None
   \<and> get_io_and_net_speeds 5 (sample_source 2000 1000 600) initial_snapshot =
       Inr (\<lparr>speeds_net = \<lparr>bytes_sent_per_sec = 0, bytes_recv_per_sec = 0\<rparr>,
             speeds_per_nic =
               [(''eth0'', \<lparr>nic_bytes_sent_per_sec = 0, nic_bytes_recv_per_sec = 0,
                          nic_packets_sent = Some 2001, nic_packets_recv = Some 1002\<rparr>),
                (''lo'', \<lparr>nic_bytes_sent_per_sec = 0, nic_bytes_recv_per_sec = 0,
                        nic_packets_sent = Some 51, nic_packets_recv = Some 52\<rparr>)],
             speeds_disk_io = \<lparr>read_bytes_per_sec = 0, write_bytes_per_sec = 0,
                               disk_read_count = Some 3, disk_write_count = Some 4\<rparr>\<rparr>,
            \<lparr>snap_time = Some 5, snap_net = Some (sample_counters 2000 1000),
             snap_net_pernic = Some [(''eth0'', sample_counters 2000 1000),
                                     (''lo'', sample_counters 50 50)],
             snap_disk_io = Some (sample_disk 600 800)\<rparr>)"
  using first_poll_all_rates_zero [of initial_snapshot 5 "sample_source 2000 1000 600"]
  by (simp add: initial_snapshot_def sample_source_def sample_counters_def sample_disk_def
        get_io_and_net_speeds_def read_net_def read_disk_io_def py_bind_def net_block_def
        per_nic_block_def nic_entry_def disk_block_def Let_def)

text \<open>
  Claim C3. In any poll whose current per-interface dict is \<open>net_pernic\<close> and whose stored
  previous per-interface dict is \<open>prev\<close>: the result has exactly the keys of \<open>net_pernic\<close>;
  an interface of \<open>net_pernic\<close> that \<open>prev\<close> lacks is reported with both rates \<open>0\<close> and the
  packet counts of its current counters; an interface that is not in \<open>net_pernic\<close>, such as
  one that only \<open>prev\<close> has, is not in the result.
\<close>

theorem per_nic_keys_follow_current:
  assumes "snd (read_net src) = net_pernic"
    and "distinct (map fst net_pernic)"
    and "snap_net_pernic snap = Some prev"
  shows "\<exists>sp snap'. get_io_and_net_speeds now src snap = Inr (sp, snap')
     \<and> fst ` set (speeds_per_nic sp) = fst ` set net_pernic
     \<and> (\<forall>nic c. map_of net_pernic nic = Some c \<and> map_of prev nic = None \<longrightarrow>
           map_of (speeds_per_nic sp) nic =
             Some \<lparr>nic_bytes_sent_per_sec = 0, nic_bytes_recv_per_sec = 0,
                   nic_packets_sent = packets_sent c, nic_packets_recv = packets_recv c\<rparr>)
     \<and> (\<forall>nic. map_of net_pernic nic = None \<longrightarrow> map_of (speeds_per_nic sp) nic = None)"
proof -
  define s_nic where
    "s_nic = projr (per_nic_block now (snap_time snap) (Some prev) net_pernic)"
  obtain sp snap' where run: "get_io_and_net_speeds now src snap = Inr (sp, snap')"
    and sel: "speeds_per_nic sp = s_nic"
    using assms(1,3) by (simp add: get_io_and_net_speeds_eq s_nic_def)
  have look: "map_of s_nic nic =
      map_option (\<lambda>c. projr (nic_entry now (snap_time snap) (Some prev) nic c))
        (map_of net_pernic nic)" for nic
    unfolding s_nic_def by (rule per_nic_block_map_of [OF assms(2)])
  have added: "map_of s_nic nic =
      Some \<lparr>nic_bytes_sent_per_sec = 0, nic_bytes_recv_per_sec = 0,
            nic_packets_sent = packets_sent c, nic_packets_recv = packets_recv c\<rparr>"
    if "map_of net_pernic nic = Some c" "map_of prev nic = None" for nic c
  proof -
    have "prev_time_and (snap_time snap)
            (case Some prev of None \<Rightarrow> None | Some d \<Rightarrow> if d = [] then None else map_of d nic)
          = None"
      using that(2) by (simp add: prev_time_and_def)
    from nic_entry_cold [OF this] show ?thesis using that(1) by (simp add: look)
  qed
  show ?thesis
  proof (intro exI conjI)
    show "get_io_and_net_speeds now src snap = Inr (sp, snap')" by (rule run)
    show "fst ` set (speeds_per_nic sp) = fst ` set net_pernic"
      unfolding sel s_nic_def by (rule per_nic_block_keys)
    show "\<forall>nic c. map_of net_pernic nic = Some c \<and> map_of prev nic = None \<longrightarrow>
           map_of (speeds_per_nic sp) nic =
             Some \<lparr>nic_bytes_sent_per_sec = 0, nic_bytes_recv_per_sec = 0,
                   nic_packets_sent = packets_sent c, nic_packets_recv = packets_recv c\<rparr>"
      unfolding sel using added by blast
    show "\<forall>nic. map_of net_pernic nic = None \<longrightarrow> map_of (speeds_per_nic sp) nic = None"
      unfolding sel by (simp add: look)
  qed
qed

theorem per_nic_keys_follow_current_witness:
  "snd (read_net (sample_source 300 400 600)) =
     [(''eth0'', sample_counters 300 400), (''lo'', sample_counters 50 50)]
   \<and> distinct (map fst [(''eth0'', sample_counters 300 400), (''lo'', sample_counters 50 50)])
   \<and> snap_net_pernic sample_snapshot =
       Some [(''eth0'', sample_counters 100 100), (''wlan0'', sample_counters 70 70)]
   \<and> (\<exists>sp snap'. get_io_and_net_speeds 2 (sample_source 300 400 600) sample_snapshot
                     = Inr (sp, snap')
        \<and> fst ` set (speeds_per_nic sp) = {''eth0'', ''lo''}
        \<and> map_of (speeds_per_nic sp) ''lo'' =
            Some \<lparr>nic_bytes_sent_per_sec = 0, nic_bytes_recv_per_sec = 0,
                  nic_packets_sent = Some 51, nic_packets_recv = Some 52\<rparr>
        \<and> map_of (speeds_per_nic sp) ''wlan0'' = None)"
proof -
  let ?cur = "[(''eth0'', sample_counters 300 400), (''lo'', sample_counters 50 50)]"
  let ?prev = "[(''eth0'', sample_counters 100 100), (''wlan0'', sample_counters 70 70)]"
  have h1: "snd (read_net (sample_source 300 400 600)) = ?cur"
    by (simp add: read_net_def sample_source_def py_bind_def)
  have h2: "distinct (map fst ?cur)" by simp
  have h3: "snap_net_pernic sample_snapshot = Some ?prev"
    by (simp add: sample_snapshot_def)
  from per_nic_keys_follow_current [OF h1 h2 h3, of 2]
  obtain sp snap' where
    run: "get_io_and_net_speeds 2 (sample_source 300 400 600) sample_snapshot = Inr (sp, snap')"
    and keys: "fst ` set (speeds_per_nic sp) = fst ` set ?cur"
    and added: "\<And>nic c. map_of ?cur nic = Some c \<Longrightarrow> map_of ?prev nic = None \<Longrightarrow>
           map_of (speeds_per_nic sp) nic =
             Some \<lparr>nic_bytes_sent_per_sec = 0, nic_bytes_recv_per_sec = 0,
                   nic_packets_sent = packets_sent c, nic_packets_recv = packets_recv c\<rparr>"
    and gone: "\<And>nic. map_of ?cur nic = None \<Longrightarrow> map_of (speeds_per_nic sp) nic = None"
    by blast
  have lo: "map_of (speeds_per_nic sp) ''lo'' =
      Some \<lparr>nic_bytes_sent_per_sec = 0, nic_bytes_recv_per_sec = 0,
            nic_packets_sent = Some 51, nic_packets_recv = Some 52\<rparr>"
    using added [of "''lo''" "sample_counters 50 50"] by (simp add: sample_counters_def)
  have wlan: "map_of (speeds_per_nic sp) ''wlan0'' = None"
    using gone [of "''wlan0''"] by simp
  from keys have keys': "fst ` set (speeds_per_nic sp) = {''eth0'', ''lo''}" by simp
  from h1 h2 h3 run keys' lo wlan show ?thesis by blast
qed

text \<open>
  Claim C10. Every entry of the per-interface result carries the packet counts of the
  current counters of its interface (\<open>None\<close> when those counters lack the attribute), for
  every stored previous sample, the empty store of the first poll included.
\<close>

theorem per_nic_packets_from_current:
  assumes "snd (read_net src) = net_pernic"
    and "distinct (map fst net_pernic)"
  shows "\<exists>sp snap'. get_io_and_net_speeds now src snap = Inr (sp, snap')
     \<and> (\<forall>nic e. map_of (speeds_per_nic sp) nic = Some e \<longrightarrow>
           (\<exists>c. map_of net_pernic nic = Some c
                \<and> nic_packets_sent e = packets_sent c
                \<and> nic_packets_recv e = packets_recv c))"
proof -
  define s_nic where
    "s_nic = projr (per_nic_block now (snap_time snap) (snap_net_pernic snap) net_pernic)"
  obtain sp snap' where run: "get_io_and_net_speeds now src snap = Inr (sp, snap')"
    and sel: "speeds_per_nic sp = s_nic"
    using assms(1) by (simp add: get_io_and_net_speeds_eq s_nic_def)
  have "\<exists>c. map_of net_pernic nic = Some c
            \<and> nic_packets_sent e = packets_sent c \<and> nic_packets_recv e = packets_recv c"
    if "map_of s_nic nic = Some e" for nic e
  proof -
    from that obtain c where c: "map_of net_pernic nic = Some c"
      and e: "e = projr (nic_entry now (snap_time snap) (snap_net_pernic snap) nic c)"
      unfolding s_nic_def per_nic_block_map_of [OF assms(2)] by auto
    obtain e' where "nic_entry now (snap_time snap) (snap_net_pernic snap) nic c = Inr e'"
      "nic_packets_sent e' = packets_sent c" "nic_packets_recv e' = packets_recv c"
      using nic_entry_total by blast
    with c e show ?thesis by simp
  qed
  with run sel show ?thesis by blast
qed

theorem per_nic_packets_from_current_witness:
  "snd (read_net (sample_source 300 400 600)) =
     [(''eth0'', sample_counters 300 400), (''lo'', sample_counters 50 50)]
   \<and> distinct (map fst [(''eth0'', sample_counters 300 400), (''lo'', sample_counters 50 50)])
   \<and> map_of (the (snap_net_pernic sample_snapshot)) ''eth0'' = Some (sample_counters 100 100)
   \<and> packets_sent (sample_counters 100 100) = Some 101
   \<and> (\<exists>sp snap' e. get_io_and_net_speeds 2 (sample_source 300 400 600) sample_snapshot
                       = Inr (sp, snap')
        \<and> map_of (speeds_per_nic sp) ''eth0'' = Some e
        \<and> nic_packets_sent e = Some 301 \<and> nic_packets_recv e = Some 402)"
proof -
  let ?cur = "[(''eth0'', sample_counters 300 400), (''lo'', sample_counters 50 50)]"
  have h1: "snd (read_net (sample_source 300 400 600)) = ?cur"
    by (simp add: read_net_def sample_source_def py_bind_def)
  have h2: "distinct (map fst ?cur)" by simp
  from per_nic_packets_from_current [OF h1 h2, of 2 sample_snapshot]
  obtain sp snap' where
    run: "get_io_and_net_speeds 2 (sample_source 300 400 600) sample_snapshot = Inr (sp, snap')"
    and from_cur: "\<And>nic e. map_of (speeds_per_nic sp) nic = Some e \<Longrightarrow>
           \<exists>c. map_of ?cur nic = Some c
                \<and> nic_packets_sent e = packets_sent c \<and> nic_packets_recv e = packets_recv c"
    by blast
  have "fst ` set (speeds_per_nic sp) = fst ` set ?cur"
    using poll_per_nic_keys [OF run] h1 by simp
  then have "''eth0'' \<in> fst ` set (speeds_per_nic sp)" by simp
  then obtain e where e: "map_of (speeds_per_nic sp) ''eth0'' = Some e"
    by (metis map_of_eq_None_iff not_Some_eq)
  from from_cur [OF e] have "nic_packets_sent e = Some 301 \<and> nic_packets_recv e = Some 402"
    by (simp add: sample_counters_def)
  with run e h1 h2 show ?thesis
    by (simp add: sample_snapshot_def sample_counters_def)
qed

lemma decrease_quotient_negative:
  fixes a b :: int
  assumes "a < b"
  shows "of_int (a - b) / max (now - p) eps < (0::rat)"
proof -
  have "0 < max (now - p) eps" using eps_pos by (simp add: max_def)
  moreover have "(of_int (a - b) :: rat) < 0" using assms by simp
  ultimately show ?thesis by (simp add: divide_neg_pos)
qed

text \<open>
  Claim C5. Take a poll at \<open>now\<close> on a stored sample whose timestamp \<open>p\<close> is a positive
  clock reading; the poll returns. For every counter whose current value is non-negative
  and below the stored value, the reported rate is the raw quotient
  \<open>(current - previous) / max (now - p) eps\<close>, a negative number: the aggregate network
  bytes sent and received, the disk bytes read and written, and the bytes sent and received
  of every interface present in both per-interface dicts. Nothing clamps the rate and
  nothing detects the reset; \<^verbatim>\<open>_calc_speed\<close> itself returns that quotient.
\<close>

theorem counter_decrease_gives_negative_rate:
  assumes "0 < p" and "snap_time snap = Some p"
  shows "\<exists>sp snap'.
      get_io_and_net_speeds now src snap = Inr (sp, snap')
    \<and> (\<forall>n pn. fst (read_net src) = Some n \<and> snap_net snap = Some pn \<longrightarrow>
          (0 \<le> bytes_sent n \<and> bytes_sent n < bytes_sent pn \<longrightarrow>
             bytes_sent_per_sec (speeds_net sp)
               = of_int (bytes_sent n - bytes_sent pn) / max (now - p) eps
           \<and> bytes_sent_per_sec (speeds_net sp) < 0)
        \<and> (0 \<le> bytes_recv n \<and> bytes_recv n < bytes_recv pn \<longrightarrow>
             bytes_recv_per_sec (speeds_net sp)
               = of_int (bytes_recv n - bytes_recv pn) / max (now - p) eps
           \<and> bytes_recv_per_sec (speeds_net sp) < 0))
    \<and> (\<forall>d pd. read_disk_io src = Some d \<and> snap_disk_io snap = Some pd \<longrightarrow>
          (0 \<le> read_bytes d \<and> read_bytes d < read_bytes pd \<longrightarrow>
             read_bytes_per_sec (speeds_disk_io sp)
               = of_int (read_bytes d - read_bytes pd) / max (now - p) eps
           \<and> read_bytes_per_sec (speeds_disk_io sp) < 0)
        \<and> (0 \<le> write_bytes d \<and> write_bytes d < write_bytes pd \<longrightarrow>
             write_bytes_per_sec (speeds_disk_io sp)
               = of_int (write_bytes d - write_bytes pd) / max (now - p) eps
           \<and> write_bytes_per_sec (speeds_disk_io sp) < 0))
    \<and> (\<forall>nic c prev pc. distinct (map fst (snd (read_net src)))
          \<and> map_of (snd (read_net src)) nic = Some c
          \<and> snap_net_pernic snap = Some prev \<and> map_of prev nic = Some pc \<longrightarrow>
          (\<exists>e. map_of (speeds_per_nic sp) nic = Some e
             \<and> (0 \<le> bytes_sent c \<and> bytes_sent c < bytes_sent pc \<longrightarrow>
                  nic_bytes_sent_per_sec e
                    = of_int (bytes_sent c - bytes_sent pc) / max (now - p) eps
                \<and> nic_bytes_sent_per_sec e < 0)
             \<and> (0 \<le> bytes_recv c \<and> bytes_recv c < bytes_recv pc \<longrightarrow>
                  nic_bytes_recv_per_sec e
                    = of_int (bytes_recv c - bytes_recv pc) / max (now - p) eps
                \<and> nic_bytes_recv_per_sec e < 0)))
    \<and> (\<forall>a b. 0 \<le> a \<and> a < b \<longrightarrow>
          calc_speed now (Some p) (Some a) (Some b)
            = Inr (of_int (a - b) / max (now - p) eps)
        \<and> of_int (a - b) / max (now - p) eps < (0::rat))"
proof -
  obtain sp snap' where run: "get_io_and_net_speeds now src snap = Inr (sp, snap')"
    using poll_returns by blast
  from assms(1) have p: "p \<noteq> 0" by simp
  have net: "(0 \<le> bytes_sent n \<and> bytes_sent n < bytes_sent pn \<longrightarrow>
             bytes_sent_per_sec (speeds_net sp)
               = of_int (bytes_sent n - bytes_sent pn) / max (now - p) eps
           \<and> bytes_sent_per_sec (speeds_net sp) < 0)
        \<and> (0 \<le> bytes_recv n \<and> bytes_recv n < bytes_recv pn \<longrightarrow>
             bytes_recv_per_sec (speeds_net sp)
               = of_int (bytes_recv n - bytes_recv pn) / max (now - p) eps
           \<and> bytes_recv_per_sec (speeds_net sp) < 0)"
    if "fst (read_net src) = Some n \<and> snap_net snap = Some pn" for n pn
    using poll_net_warm [OF run assms(2) p, of pn n] that
      decrease_quotient_negative [of "bytes_sent n" "bytes_sent pn" now p]
      decrease_quotient_negative [of "bytes_recv n" "bytes_recv pn" now p]
    by auto
  have disk: "(0 \<le> read_bytes d \<and> read_bytes d < read_bytes pd \<longrightarrow>
             read_bytes_per_sec (speeds_disk_io sp)
               = of_int (read_bytes d - read_bytes pd) / max (now - p) eps
           \<and> read_bytes_per_sec (speeds_disk_io sp) < 0)
        \<and> (0 \<le> write_bytes d \<and> write_bytes d < write_bytes pd \<longrightarrow>
             write_bytes_per_sec (speeds_disk_io sp)
               = of_int (write_bytes d - write_bytes pd) / max (now - p) eps
           \<and> write_bytes_per_sec (speeds_disk_io sp) < 0)"
    if "read_disk_io src = Some d \<and> snap_disk_io snap = Some pd" for d pd
    using poll_disk_warm [OF run assms(2) p, of pd d] that
      decrease_quotient_negative [of "read_bytes d" "read_bytes pd" now p]
      decrease_quotient_negative [of "write_bytes d" "write_bytes pd" now p]
    by auto
  have nic: "\<exists>e. map_of (speeds_per_nic sp) nic = Some e
             \<and> (0 \<le> bytes_sent c \<and> bytes_sent c < bytes_sent pc \<longrightarrow>
                  nic_bytes_sent_per_sec e
                    = of_int (bytes_sent c - bytes_sent pc) / max (now - p) eps
                \<and> nic_bytes_sent_per_sec e < 0)
             \<and> (0 \<le> bytes_recv c \<and> bytes_recv c < bytes_recv pc \<longrightarrow>
                  nic_bytes_recv_per_sec e
                    = of_int (bytes_recv c - bytes_recv pc) / max (now - p) eps
                \<and> nic_bytes_recv_per_sec e < 0)"
    if h: "distinct (map fst (snd (read_net src)))
          \<and> map_of (snd (read_net src)) nic = Some c
          \<and> snap_net_pernic snap = Some prev \<and> map_of prev nic = Some pc" for nic c prev pc
  proof -
    from h poll_nic_warm [OF run assms(2) p, of prev nic pc c]
    obtain e where e: "map_of (speeds_per_nic sp) nic = Some e"
      "nic_bytes_sent_per_sec e =
           of_int (bytes_sent c - (if bytes_sent pc = 0 then bytes_sent c else bytes_sent pc))
             / max (now - p) eps"
      "nic_bytes_recv_per_sec e =
           of_int (bytes_recv c - (if bytes_recv pc = 0 then bytes_recv c else bytes_recv pc))
             / max (now - p) eps"
      by blast
    have "0 \<le> bytes_sent c \<and> bytes_sent c < bytes_sent pc \<longrightarrow>
                  nic_bytes_sent_per_sec e
                    = of_int (bytes_sent c - bytes_sent pc) / max (now - p) eps
                \<and> nic_bytes_sent_per_sec e < 0"
      using e(2) decrease_quotient_negative [of "bytes_sent c" "bytes_sent pc" now p] by auto
    moreover have "0 \<le> bytes_recv c \<and> bytes_recv c < bytes_recv pc \<longrightarrow>
                  nic_bytes_recv_per_sec e
                    = of_int (bytes_recv c - bytes_recv pc) / max (now - p) eps
                \<and> nic_bytes_recv_per_sec e < 0"
      using e(3) decrease_quotient_negative [of "bytes_recv c" "bytes_recv pc" now p] by auto
    ultimately show ?thesis using e(1) by blast
  qed
  have calc: "calc_speed now (Some p) (Some a) (Some b)
            = Inr (of_int (a - b) / max (now - p) eps)
        \<and> of_int (a - b) / max (now - p) eps < (0::rat)"
    if "0 \<le> a \<and> a < b" for a b
    using that p decrease_quotient_negative [of a b now p] by (simp add: calc_speed_Some)
  show ?thesis
  proof (intro exI conjI)
    show "get_io_and_net_speeds now src snap = Inr (sp, snap')" by (rule run)
    show "\<forall>n pn. fst (read_net src) = Some n \<and> snap_net snap = Some pn \<longrightarrow>
          (0 \<le> bytes_sent n \<and> bytes_sent n < bytes_sent pn \<longrightarrow>
             bytes_sent_per_sec (speeds_net sp)
               = of_int (bytes_sent n - bytes_sent pn) / max (now - p) eps
           \<and> bytes_sent_per_sec (speeds_net sp) < 0)
        \<and> (0 \<le> bytes_recv n \<and> bytes_recv n < bytes_recv pn \<longrightarrow>
             bytes_recv_per_sec (speeds_net sp)
               = of_int (bytes_recv n - bytes_recv pn) / max (now - p) eps
           \<and> bytes_recv_per_sec (speeds_net sp) < 0)"
      by (intro allI impI) (rule net)
    show "\<forall>d pd. read_disk_io src = Some d \<and> snap_disk_io snap = Some pd \<longrightarrow>
          (0 \<le> read_bytes d \<and> read_bytes d < read_bytes pd \<longrightarrow>
             read_bytes_per_sec (speeds_disk_io sp)
               = of_int (read_bytes d - read_bytes pd) / max (now - p) eps
           \<and> read_bytes_per_sec (speeds_disk_io sp) < 0)
        \<and> (0 \<le> write_bytes d \<and> write_bytes d < write_bytes pd \<longrightarrow>
             write_bytes_per_sec (speeds_disk_io sp)
               = of_int (write_bytes d - write_bytes pd) / max (now - p) eps
           \<and> write_bytes_per_sec (speeds_disk_io sp) < 0)"
      by (intro allI impI) (rule disk)
    show "\<forall>nic c prev pc. distinct (map fst (snd (read_net src)))
          \<and> map_of (snd (read_net src)) nic = Some c
          \<and> snap_net_pernic snap = Some prev \<and> map_of prev nic = Some pc \<longrightarrow>
          (\<exists>e. map_of (speeds_per_nic sp) nic = Some e
             \<and> (0 \<le> bytes_sent c \<and> bytes_sent c < bytes_sent pc \<longrightarrow>
                  nic_bytes_sent_per_sec e
                    = of_int (bytes_sent c - bytes_sent pc) / max (now - p) eps
                \<and> nic_bytes_sent_per_sec e < 0)
             \<and> (0 \<le> bytes_recv c \<and> bytes_recv c < bytes_recv pc \<longrightarrow>
                  nic_bytes_recv_per_sec e
                    = of_int (bytes_recv c - bytes_recv pc) / max (now - p) eps
                \<and> nic_bytes_recv_per_sec e < 0))"
      by (intro allI impI) (rule nic)
    show "\<forall>a b. 0 \<le> a \<and> a < b \<longrightarrow>
          calc_speed now (Some p) (Some a) (Some b)
            = Inr (of_int (a - b) / max (now - p) eps)
        \<and> of_int (a - b) / max (now - p) eps < (0::rat)"
      by (intro allI impI) (rule calc)
  qed
qed

theorem counter_decrease_gives_negative_rate_witness:
  "(0::rat) < 1 \<and> snap_time sample_snapshot = Some 1
   \<and> snap_net sample_snapshot = Some (sample_counters 100 100)
   \<and> snap_disk_io sample_snapshot = Some (sample_disk 500 800)
   \<and> map_of (the (snap_net_pernic sample_snapshot)) ''eth0'' = Some (sample_counters 100 100)
   \<and> fst (read_net decreased_source) = Some (sample_counters 40 30)
   \<and> read_disk_io decreased_source = Some (sample_disk 200 500)
   \<and> map_of (snd (read_net decreased_source)) ''eth0'' = Some (sample_counters 40 30)
   \<and> (\<exists>sp snap' e.
         get_io_and_net_speeds 2 decreased_source sample_snapshot = Inr (sp, snap')
       \<and> bytes_sent_per_sec (speeds_net sp) = - 60
       \<and> bytes_recv_per_sec (speeds_net sp) = - 70
       \<and> read_bytes_per_sec (speeds_disk_io sp) = - 300
       \<and> write_bytes_per_sec (speeds_disk_io sp) = - 300
       \<and> map_of (speeds_per_nic sp) ''eth0'' = Some e
       \<and> nic_bytes_sent_per_sec e = - 60
       \<and> nic_bytes_recv_per_sec e = - 70)
   \<and> calc_speed 2 (Some 1) (Some 40) (Some 100) = Inr (- 60)"
proof -
  let ?prev = "[(''eth0'', sample_counters 100 100), (''wlan0'', sample_counters 70 70)]"
  have h: "(0::rat) < 1" "snap_time sample_snapshot = Some 1"
    by (simp_all add: sample_snapshot_def)
  have g: "snap_net sample_snapshot = Some (sample_counters 100 100)"
    "snap_disk_io sample_snapshot = Some (sample_disk 500 800)"
    "snap_net_pernic sample_snapshot = Some ?prev"
    "map_of ?prev ''eth0'' = Some (sample_counters 100 100)"
    by (simp_all add: sample_snapshot_def)
  have rd: "fst (read_net decreased_source) = Some (sample_counters 40 30)"
    "read_disk_io decreased_source = Some (sample_disk 200 500)"
    "distinct (map fst (snd (read_net decreased_source)))"
    "map_of (snd (read_net decreased_source)) ''eth0'' = Some (sample_counters 40 30)"
    by (simp_all add: decreased_source_def read_net_def read_disk_io_def py_bind_def)
  have m: "max (2 - 1) eps = (1::rat)" by (simp add: eps_def)
  from counter_decrease_gives_negative_rate [OF h, of 2 decreased_source]
  obtain sp snap' where all:
    "get_io_and_net_speeds 2 decreased_source sample_snapshot = Inr (sp, snap')
    \<and> (\<forall>n pn. fst (read_net decreased_source) = Some n
          \<and> snap_net sample_snapshot = Some pn \<longrightarrow>
          (0 \<le> bytes_sent n \<and> bytes_sent n < bytes_sent pn \<longrightarrow>
             bytes_sent_per_sec (speeds_net sp)
               = of_int (bytes_sent n - bytes_sent pn) / max (2 - 1) eps
           \<and> bytes_sent_per_sec (speeds_net sp) < 0)
        \<and> (0 \<le> bytes_recv n \<and> bytes_recv n < bytes_recv pn \<longrightarrow>
             bytes_recv_per_sec (speeds_net sp)
               = of_int (bytes_recv n - bytes_recv pn) / max (2 - 1) eps
           \<and> bytes_recv_per_sec (speeds_net sp) < 0))
    \<and> (\<forall>d pd. read_disk_io decreased_source = Some d
          \<and> snap_disk_io sample_snapshot = Some pd \<longrightarrow>
          (0 \<le> read_bytes d \<and> read_bytes d < read_bytes pd \<longrightarrow>
             read_bytes_per_sec (speeds_disk_io sp)
               = of_int (read_bytes d - read_bytes pd) / max (2 - 1) eps
           \<and> read_bytes_per_sec (speeds_disk_io sp) < 0)
        \<and> (0 \<le> write_bytes d \<and> write_bytes d < write_bytes pd \<longrightarrow>
             write_bytes_per_sec (speeds_disk_io sp)
               = of_int (write_bytes d - write_bytes pd) / max (2 - 1) eps
           \<and> write_bytes_per_sec (speeds_disk_io sp) < 0))
    \<and> (\<forall>nic c prev pc. distinct (map fst (snd (read_net decreased_source)))
          \<and> map_of (snd (read_net decreased_source)) nic = Some c
          \<and> snap_net_pernic sample_snapshot = Some prev \<and> map_of prev nic = Some pc \<longrightarrow>
          (\<exists>e. map_of (speeds_per_nic sp) nic = Some e
             \<and> (0 \<le> bytes_sent c \<and> bytes_sent c < bytes_sent pc \<longrightarrow>
                  nic_bytes_sent_per_sec e
                    = of_int (bytes_sent c - bytes_sent pc) / max (2 - 1) eps
                \<and> nic_bytes_sent_per_sec e < 0)
             \<and> (0 \<le> bytes_recv c \<and> bytes_recv c < bytes_recv pc \<longrightarrow>
                  nic_bytes_recv_per_sec e
                    = of_int (bytes_recv c - bytes_recv pc) / max (2 - 1) eps
                \<and> nic_bytes_recv_per_sec e < 0)))
    \<and> (\<forall>a b. 0 \<le> a \<and> a < b \<longrightarrow>
          calc_speed 2 (Some 1) (Some a) (Some b)
            = Inr (of_int (a - b) / max (2 - 1) eps)
        \<and> of_int (a - b) / max (2 - 1) eps < (0::rat))"
    by (elim exE) (rule that)
  note run = all [THEN conjunct1]
  note net = all [THEN conjunct2, THEN conjunct1, rule_format]
  note disk = all [THEN conjunct2, THEN conjunct2, THEN conjunct1, rule_format]
  note nic = all [THEN conjunct2, THEN conjunct2, THEN conjunct2, THEN conjunct1, rule_format]
  note calc = all [THEN conjunct2, THEN conjunct2, THEN conjunct2, THEN conjunct2, rule_format]
  from net [of "sample_counters 40 30" "sample_counters 100 100"] rd(1) g(1)
  have n: "bytes_sent_per_sec (speeds_net sp) = - 60"
    "bytes_recv_per_sec (speeds_net sp) = - 70"
    unfolding m by (simp_all add: sample_counters_def)
  from disk [of "sample_disk 200 500" "sample_disk 500 800"] rd(2) g(2)
  have d: "read_bytes_per_sec (speeds_disk_io sp) = - 300"
    "write_bytes_per_sec (speeds_disk_io sp) = - 300"
    unfolding m by (simp_all add: sample_disk_def)
  from nic [of "''eth0''" "sample_counters 40 30" ?prev "sample_counters 100 100"]
    rd(3,4) g(3,4)
  obtain e where e: "map_of (speeds_per_nic sp) ''eth0'' = Some e"
    "nic_bytes_sent_per_sec e = - 60" "nic_bytes_recv_per_sec e = - 70"
    unfolding m by (auto simp add: sample_counters_def)
  from calc [of 40 100] have c: "calc_speed 2 (Some 1) (Some 40) (Some 100) = Inr (- 60)"
    unfolding m by simp
  have pe: "map_of (the (snap_net_pernic sample_snapshot)) ''eth0''
              = Some (sample_counters 100 100)"
    using g(3,4) by simp
  from h g(1,2) pe rd(1,2,4) run n d e c show ?thesis
    by (intro conjI exI) assumption+
qed

text \<open>
  Claim C1 fails as stated when the two polls are closer than the floor \<open>eps\<close>: polls at
  \<open>T1 = 1000\<close> and \<open>T2 = 1000 + 5e-7\<close> that read \<^verbatim>\<open>bytes_sent\<close> \<open>1000\<close> and \<open>1500\<close> report
  \<open>500 / eps = 5e8\<close> bytes per second, while \<open>(C2 - C1) / (T2 - T1)\<close> is \<open>1e9\<close>.
\<close>

theorem rate_of_close_polls_counterexample:
  "(1000::rat) < 1000 + 1 / 2000000 \<and> (1000::int) \<le> 1500
   \<and> net_io_counters (sample_source 1000 400 600) = Inr (Some (sample_counters 1000 400))
   \<and> net_io_counters (sample_source 1500 400 600) = Inr (Some (sample_counters 1500 400))
   \<and> bytes_sent_per_sec (speeds_net (fst (projr
         (get_io_and_net_speeds (1000 + 1 / 2000000) (sample_source 1500 400 600)
            (snd (projr (get_io_and_net_speeds 1000 (sample_source 1000 400 600)
                           initial_snapshot)))))))
       = 500000000
   \<and> (1500 - 1000) / ((1000 + 1 / 2000000) - 1000) = (1000000000::rat)"
  by (simp add: initial_snapshot_def sample_source_def sample_counters_def sample_disk_def
        get_io_and_net_speeds_def read_net_def read_disk_io_def py_bind_def net_block_def
        per_nic_block_def nic_entry_def disk_block_def Let_def calc_speed_Some
        prev_time_and_def truthy_num_def eps_def)

text \<open>
  Claim C1, amended. Two consecutive polls at clock readings \<open>0 < t1 < t2\<close>, the second
  running on the sample the first stored, both return. For every counter that both polls
  read and whose previous value \<open>C1\<close> is positive with \<open>C1 \<le> C2\<close>, the second poll reports
  \<open>(C2 - C1) / max (t2 - t1) eps\<close>: the aggregate network bytes sent and received, the disk
  bytes read and written, and the bytes sent and received of every interface present in
  both per-interface dicts. That is \<open>(C2 - C1) / (t2 - t1)\<close> whenever the polls are at least
  \<open>eps\<close> apart. Nothing is said here of a previous value of \<open>0\<close>.
\<close>

theorem consecutive_polls_rate:
  assumes "0 < t1" and "t1 < t2"
  shows "\<exists>sp1 s1 sp2 s2.
      get_io_and_net_speeds t1 src1 snap = Inr (sp1, s1)
    \<and> get_io_and_net_speeds t2 src2 s1 = Inr (sp2, s2)
    \<and> (\<forall>n1 n2. fst (read_net src1) = Some n1 \<and> fst (read_net src2) = Some n2 \<longrightarrow>
          (0 < bytes_sent n1 \<and> bytes_sent n1 \<le> bytes_sent n2 \<longrightarrow>
             bytes_sent_per_sec (speeds_net sp2)
               = of_int (bytes_sent n2 - bytes_sent n1) / max (t2 - t1) eps)
        \<and> (0 < bytes_recv n1 \<and> bytes_recv n1 \<le> bytes_recv n2 \<longrightarrow>
             bytes_recv_per_sec (speeds_net sp2)
               = of_int (bytes_recv n2 - bytes_recv n1) / max (t2 - t1) eps))
    \<and> (\<forall>d1 d2. read_disk_io src1 = Some d1 \<and> read_disk_io src2 = Some d2 \<longrightarrow>
          (0 < read_bytes d1 \<and> read_bytes d1 \<le> read_bytes d2 \<longrightarrow>
             read_bytes_per_sec (speeds_disk_io sp2)
               = of_int (read_bytes d2 - read_bytes d1) / max (t2 - t1) eps)
        \<and> (0 < write_bytes d1 \<and> write_bytes d1 \<le> write_bytes d2 \<longrightarrow>
             write_bytes_per_sec (speeds_disk_io sp2)
               = of_int (write_bytes d2 - write_bytes d1) / max (t2 - t1) eps))
    \<and> (\<forall>nic c1 c2. distinct (map fst (snd (read_net src2)))
          \<and> map_of (snd (read_net src1)) nic = Some c1
          \<and> map_of (snd (read_net src2)) nic = Some c2 \<longrightarrow>
          (\<exists>e. map_of (speeds_per_nic sp2) nic = Some e
             \<and> (0 < bytes_sent c1 \<and> bytes_sent c1 \<le> bytes_sent c2 \<longrightarrow>
                  nic_bytes_sent_per_sec e
                    = of_int (bytes_sent c2 - bytes_sent c1) / max (t2 - t1) eps)
             \<and> (0 < bytes_recv c1 \<and> bytes_recv c1 \<le> bytes_recv c2 \<longrightarrow>
                  nic_bytes_recv_per_sec e
                    = of_int (bytes_recv c2 - bytes_recv c1) / max (t2 - t1) eps)))
    \<and> (eps \<le> t2 - t1 \<longrightarrow> max (t2 - t1) eps = t2 - t1)"
proof -
  obtain sp1 s1 where run1: "get_io_and_net_speeds t1 src1 snap = Inr (sp1, s1)"
    using poll_returns by blast
  obtain sp2 s2 where run2: "get_io_and_net_speeds t2 src2 s1 = Inr (sp2, s2)"
    using poll_returns by blast
  from poll_snapshot [OF run1]
  have st: "snap_time s1 = Some t1" "snap_net s1 = fst (read_net src1)"
    "snap_net_pernic s1 = Some (snd (read_net src1))" "snap_disk_io s1 = read_disk_io src1"
    by simp_all
  from assms(1) have t1: "t1 \<noteq> 0" by simp
  have net: "(0 < bytes_sent n1 \<and> bytes_sent n1 \<le> bytes_sent n2 \<longrightarrow>
             bytes_sent_per_sec (speeds_net sp2)
               = of_int (bytes_sent n2 - bytes_sent n1) / max (t2 - t1) eps)
        \<and> (0 < bytes_recv n1 \<and> bytes_recv n1 \<le> bytes_recv n2 \<longrightarrow>
             bytes_recv_per_sec (speeds_net sp2)
               = of_int (bytes_recv n2 - bytes_recv n1) / max (t2 - t1) eps)"
    if "fst (read_net src1) = Some n1 \<and> fst (read_net src2) = Some n2" for n1 n2
    using poll_net_warm [OF run2 st(1) t1, of n1 n2] that st(2) by simp
  have disk: "(0 < read_bytes d1 \<and> read_bytes d1 \<le> read_bytes d2 \<longrightarrow>
             read_bytes_per_sec (speeds_disk_io sp2)
               = of_int (read_bytes d2 - read_bytes d1) / max (t2 - t1) eps)
        \<and> (0 < write_bytes d1 \<and> write_bytes d1 \<le> write_bytes d2 \<longrightarrow>
             write_bytes_per_sec (speeds_disk_io sp2)
               = of_int (write_bytes d2 - write_bytes d1) / max (t2 - t1) eps)"
    if "read_disk_io src1 = Some d1 \<and> read_disk_io src2 = Some d2" for d1 d2
    using poll_disk_warm [OF run2 st(1) t1, of d1 d2] that st(4) by simp
  have nic: "\<exists>e. map_of (speeds_per_nic sp2) nic = Some e
             \<and> (0 < bytes_sent c1 \<and> bytes_sent c1 \<le> bytes_sent c2 \<longrightarrow>
                  nic_bytes_sent_per_sec e
                    = of_int (bytes_sent c2 - bytes_sent c1) / max (t2 - t1) eps)
             \<and> (0 < bytes_recv c1 \<and> bytes_recv c1 \<le> bytes_recv c2 \<longrightarrow>
                  nic_bytes_recv_per_sec e
                    = of_int (bytes_recv c2 - bytes_recv c1) / max (t2 - t1) eps)"
    if "distinct (map fst (snd (read_net src2)))
          \<and> map_of (snd (read_net src1)) nic = Some c1
          \<and> map_of (snd (read_net src2)) nic = Some c2" for nic c1 c2
  proof -
    from that poll_nic_warm [OF run2 st(1) t1 st(3), of nic c1 c2]
    obtain e where e: "map_of (speeds_per_nic sp2) nic = Some e"
      "nic_bytes_sent_per_sec e =
           of_int (bytes_sent c2 - (if bytes_sent c1 = 0 then bytes_sent c2 else bytes_sent c1))
             / max (t2 - t1) eps"
      "nic_bytes_recv_per_sec e =
           of_int (bytes_recv c2 - (if bytes_recv c1 = 0 then bytes_recv c2 else bytes_recv c1))
             / max (t2 - t1) eps"
      by blast
    then show ?thesis by simp
  qed
  have far: "eps \<le> t2 - t1 \<longrightarrow> max (t2 - t1) eps = t2 - t1"
    by (simp add: max_def)
  from run1 run2 net disk nic far show ?thesis by blast
qed

theorem consecutive_polls_rate_witness:
  "(0::rat) < 1 \<and> (1::rat) < 3 \<and> eps \<le> 3 - 1
   \<and> fst (read_net (sample_source 100 200 500)) = Some (sample_counters 100 200)
   \<and> fst (read_net (sample_source 300 400 600)) = Some (sample_counters 300 400)
   \<and> read_disk_io (sample_source 100 200 500) = Some (sample_disk 500 800)
   \<and> read_disk_io (sample_source 300 400 600) = Some (sample_disk 600 800)
   \<and> distinct (map fst (snd (read_net (sample_source 300 400 600))))
   \<and> map_of (snd (read_net (sample_source 100 200 500))) ''eth0'' = Some (sample_counters 100 200)
   \<and> map_of (snd (read_net (sample_source 300 400 600))) ''eth0'' = Some (sample_counters 300 400)
   \<and> (\<exists>sp1 s1 sp2 s2.
         get_io_and_net_speeds 1 (sample_source 100 200 500) initial_snapshot = Inr (sp1, s1)
       \<and> get_io_and_net_speeds 3 (sample_source 300 400 600) s1 = Inr (sp2, s2)
       \<and> bytes_sent_per_sec (speeds_net sp2) = (300 - 100) / (3 - 1)
       \<and> bytes_recv_per_sec (speeds_net sp2) = (400 - 200) / (3 - 1)
       \<and> read_bytes_per_sec (speeds_disk_io sp2) = (600 - 500) / (3 - 1)
       \<and> write_bytes_per_sec (speeds_disk_io sp2) = (800 - 800) / (3 - 1)
       \<and> (\<exists>e. map_of (speeds_per_nic sp2) ''eth0'' = Some e
              \<and> nic_bytes_sent_per_sec e = (300 - 100) / (3 - 1)
              \<and> nic_bytes_recv_per_sec e = (400 - 200) / (3 - 1)))"
proof -
  let ?src1 = "sample_source 100 200 500" and ?src2 = "sample_source 300 400 600"
  have h: "(0::rat) < 1" "(1::rat) < 3" by simp_all
  have far: "eps \<le> 3 - 1" by (simp add: eps_def)
  have rd: "fst (read_net ?src1) = Some (sample_counters 100 200)"
    "fst (read_net ?src2) = Some (sample_counters 300 400)"
    "read_disk_io ?src1 = Some (sample_disk 500 800)"
    "read_disk_io ?src2 = Some (sample_disk 600 800)"
    "distinct (map fst (snd (read_net ?src2)))"
    "map_of (snd (read_net ?src1)) ''eth0'' = Some (sample_counters 100 200)"
    "map_of (snd (read_net ?src2)) ''eth0'' = Some (sample_counters 300 400)"
    by (simp_all add: read_net_def read_disk_io_def sample_source_def py_bind_def)
  from consecutive_polls_rate [OF h, of ?src1 initial_snapshot ?src2]
  obtain sp1 s1 sp2 s2 where
    run1: "get_io_and_net_speeds 1 ?src1 initial_snapshot = Inr (sp1, s1)"
    and run2: "get_io_and_net_speeds 3 ?src2 s1 = Inr (sp2, s2)"
    and net: "\<And>n1 n2. fst (read_net ?src1) = Some n1 \<and> fst (read_net ?src2) = Some n2 \<Longrightarrow>
          (0 < bytes_sent n1 \<and> bytes_sent n1 \<le> bytes_sent n2 \<longrightarrow>
             bytes_sent_per_sec (speeds_net sp2)
               = of_int (bytes_sent n2 - bytes_sent n1) / max (3 - 1) eps)
        \<and> (0 < bytes_recv n1 \<and> bytes_recv n1 \<le> bytes_recv n2 \<longrightarrow>
             bytes_recv_per_sec (speeds_net sp2)
               = of_int (bytes_recv n2 - bytes_recv n1) / max (3 - 1) eps)"
    and disk: "\<And>d1 d2. read_disk_io ?src1 = Some d1 \<and> read_disk_io ?src2 = Some d2 \<Longrightarrow>
          (0 < read_bytes d1 \<and> read_bytes d1 \<le> read_bytes d2 \<longrightarrow>
             read_bytes_per_sec (speeds_disk_io sp2)
               = of_int (read_bytes d2 - read_bytes d1) / max (3 - 1) eps)
        \<and> (0 < write_bytes d1 \<and> write_bytes d1 \<le> write_bytes d2 \<longrightarrow>
             write_bytes_per_sec (speeds_disk_io sp2)
               = of_int (write_bytes d2 - write_bytes d1) / max (3 - 1) eps)"
    and nic: "\<And>nic c1 c2. distinct (map fst (snd (read_net ?src2)))
          \<and> map_of (snd (read_net ?src1)) nic = Some c1
          \<and> map_of (snd (read_net ?src2)) nic = Some c2 \<Longrightarrow>
          (\<exists>e. map_of (speeds_per_nic sp2) nic = Some e
             \<and> (0 < bytes_sent c1 \<and> bytes_sent c1 \<le> bytes_sent c2 \<longrightarrow>
                  nic_bytes_sent_per_sec e
                    = of_int (bytes_sent c2 - bytes_sent c1) / max (3 - 1) eps)
             \<and> (0 < bytes_recv c1 \<and> bytes_recv c1 \<le> bytes_recv c2 \<longrightarrow>
                  nic_bytes_recv_per_sec e
                    = of_int (bytes_recv c2 - bytes_recv c1) / max (3 - 1) eps))"
    and m: "eps \<le> 3 - 1 \<longrightarrow> max (3 - 1) eps = 3 - 1"
    by blast
  from m far have m': "max (3 - 1) eps = 3 - 1" by blast
  from net [of "sample_counters 100 200" "sample_counters 300 400"] rd(1,2)
  have n: "bytes_sent_per_sec (speeds_net sp2) = (300 - 100) / (3 - 1)"
    "bytes_recv_per_sec (speeds_net sp2) = (400 - 200) / (3 - 1)"
    unfolding m' by (simp_all add: sample_counters_def)
  from disk [of "sample_disk 500 800" "sample_disk 600 800"] rd(3,4)
  have d: "read_bytes_per_sec (speeds_disk_io sp2) = (600 - 500) / (3 - 1)"
    "write_bytes_per_sec (speeds_disk_io sp2) = (800 - 800) / (3 - 1)"
    unfolding m' by (simp_all add: sample_disk_def)
  from nic [of "''eth0''" "sample_counters 100 200" "sample_counters 300 400"] rd(5,6,7)
  have e: "\<exists>e. map_of (speeds_per_nic sp2) ''eth0'' = Some e
              \<and> nic_bytes_sent_per_sec e = (300 - 100) / (3 - 1)
              \<and> nic_bytes_recv_per_sec e = (400 - 200) / (3 - 1)"
    unfolding m' by (simp add: sample_counters_def)
  from h far rd run1 run2 n d e show ?thesis by blast
qed




section \<open>Properties of \<^verbatim>\<open>metrics\<close>\<close>

subsection \<open>The CPU section\<close>

lemma randint_range: "a \<le> b \<Longrightarrow> a \<le> randint a b r \<and> randint a b r \<le> b"
proof -
  assume "a \<le> b"
  then have "0 < nat (b - a + 1)" by simp
  then have "r mod nat (b - a + 1) < nat (b - a + 1)" by (rule mod_less_divisor)
  then have "int (r mod nat (b - a + 1)) < int (nat (b - a + 1))"
    by (simp only: of_nat_less_iff)
  with \<open>a \<le> b\<close> have "int (r mod nat (b - a + 1)) < b - a + 1" by simp
  then show ?thesis unfolding randint_def by linarith
qed

lemma sum_list_bounds:
  fixes xs :: "rat list"
  assumes "\<forall>v \<in> set xs. a \<le> v \<and> v \<le> b"
  shows "a * of_nat (length xs) \<le> sum_list xs \<and> sum_list xs \<le> b * of_nat (length xs)"
  using assms by (induction xs) (auto simp add: algebra_simps)

lemma mean_bounds:
  fixes xs :: "rat list"
  assumes "\<forall>v \<in> set xs. a \<le> v \<and> v \<le> b" and "xs \<noteq> []"
  shows "a \<le> sum_list xs / of_nat (length xs) \<and> sum_list xs / of_nat (length xs) \<le> b"
proof -
  from assms(2) have pos: "(0::rat) < of_nat (length xs)" by simp
  from sum_list_bounds [OF assms(1)] pos show ?thesis
    by (simp add: pos_le_divide_eq pos_divide_le_eq)
qed

text \<open>The number of placeholders lines 233 and 237 ask for.\<close>

lemma fallback_cpu_eq:
  "fallback_cpu rnd env =
     Inr (map (\<lambda>i. of_int (randint 6 10 (random_draws env i)))
            [0..<(case cpu_count_logical env of None \<Rightarrow> 1 | Some n \<Rightarrow> if n = 0 then 1 else n)],
          rnd (sum_list (map (\<lambda>i. of_int (randint 6 10 (random_draws env i)))
                 [0..<(case cpu_count_logical env of
                         None \<Rightarrow> 1 | Some n \<Rightarrow> if n = 0 then 1 else n)])
               / of_nat (case cpu_count_logical env of
                           None \<Rightarrow> 1 | Some n \<Rightarrow> if n = 0 then 1 else n)) 1)"
  by (simp add: fallback_cpu_def Let_def py_bind_def py_truediv_def split: option.splits)

lemma fallback_cpu_props:
  "\<exists>per_cpu overall.
      fallback_cpu rnd env = Inr (per_cpu, overall)
    \<and> length per_cpu =
        (case cpu_count_logical env of None \<Rightarrow> 1 | Some n \<Rightarrow> if n = 0 then 1 else n)
    \<and> (\<forall>v \<in> set per_cpu. \<exists>k::int. v = of_int k \<and> 6 \<le> k \<and> k \<le> 10)
    \<and> overall = rnd (sum_list per_cpu / of_nat (length per_cpu)) 1"
proof -
  have "\<exists>k::int. (of_int (randint 6 10 r) :: rat) = of_int k \<and> 6 \<le> k \<and> k \<le> 10" for r
    using randint_range [of 6 10 r] by auto
  then show ?thesis by (simp add: fallback_cpu_eq)
qed

lemma sample_cpu_fallback:
  assumes "(\<exists>e. cpu_percent env = Inl e)
           \<or> (\<exists>ps. cpu_percent env = Inr ps \<and> (\<forall>p \<in> set ps. p = 0))"
  shows "sample_cpu rnd env = fallback_cpu rnd env"
proof -
  from assms consider e where "cpu_percent env = Inl e"
    | ps where "cpu_percent env = Inr ps" "\<forall>p \<in> set ps. p = 0"
    by blast
  then show ?thesis
  proof cases
    case 1
    then show ?thesis by (simp add: sample_cpu_def py_bind_def)
  next
    case 2
    then have "\<not> list_ex (\<lambda>p. 0 < p) ps" by (auto simp add: list_ex_iff)
    with 2(1) show ?thesis
      by (simp add: sample_cpu_def py_bind_def fallback_cpu_eq)
  qed
qed

lemma sample_cpu_measured:
  assumes "cpu_percent env = Inr ps" and "list_ex (\<lambda>p. 0 < p) ps"
  shows "sample_cpu rnd env = Inr (ps, rnd (sum_list ps / of_nat (length ps)) 1)"
proof -
  from assms(2) have "ps \<noteq> []" by auto
  with assms show ?thesis
    by (simp add: sample_cpu_def py_bind_def py_truediv_def)
qed

lemma sample_cpu_total:
  "\<exists>per_cpu overall. sample_cpu rnd env = Inr (per_cpu, overall)
     \<and> list_ex (\<lambda>v. 0 < v) per_cpu"
proof (cases "\<exists>ps. cpu_percent env = Inr ps \<and> list_ex (\<lambda>p. 0 < p) ps")
  case True
  then show ?thesis using sample_cpu_measured by blast
next
  case False
  have fb: "sample_cpu rnd env = fallback_cpu rnd env"
  proof (cases "cpu_percent env")
    case (Inl e)
    then show ?thesis by (simp add: sample_cpu_def py_bind_def)
  next
    case (Inr ps)
    with False have "\<not> list_ex (\<lambda>p. 0 < p) ps" by simp
    with Inr show ?thesis by (simp add: sample_cpu_def py_bind_def fallback_cpu_eq)
  qed
  obtain per_cpu overall where p: "fallback_cpu rnd env = Inr (per_cpu, overall)"
    "length per_cpu =
        (case cpu_count_logical env of None \<Rightarrow> 1 | Some n \<Rightarrow> if n = 0 then 1 else n)"
    "\<forall>v \<in> set per_cpu. \<exists>k::int. v = of_int k \<and> 6 \<le> k \<and> k \<le> 10"
    using fallback_cpu_props by blast
  from p(2) have "per_cpu \<noteq> []" by (auto split: option.splits if_splits)
  then obtain v where v: "v \<in> set per_cpu" by (cases per_cpu) auto
  with p(3) obtain k :: int where "v = of_int k" "6 \<le> k" by blast
  then have "0 < v" by simp
  with v have "list_ex (\<lambda>v. 0 < v) per_cpu" by (auto simp add: list_ex_iff)
  with fb p(1) show ?thesis by simp
qed

subsection \<open>The response\<close>

lemma top_cpu_returns:
  "process_iter env = Inr ps \<Longrightarrow> \<exists>l. get_top_processes_by_cpu n env = Inr l"
  by (simp add: get_top_processes_by_cpu_def py_bind_def Let_def)

lemma top_cpu_raises:
  "process_iter env = Inl e \<Longrightarrow> get_top_processes_by_cpu n env = Inl e"
  by (simp add: get_top_processes_by_cpu_def py_bind_def)

lemma top_memory_returns:
  "process_iter env = Inr ps \<Longrightarrow> \<exists>l. get_top_processes_by_memory n env = Inr l"
  by (simp add: get_top_processes_by_memory_def py_bind_def Let_def)

text \<open>The keys of the dict of lines 354-374, in the order written.\<close>

lemma metrics_returns:
  assumes "process_iter env = Inr ps" and "sample_cpu rnd env = Inr (per_cpu, overall)"
  shows "\<exists>resp sp snap'.
       metrics rnd env snap = (Inr resp, snap')
     \<and> get_io_and_net_speeds (time_time env) (counter_reads env) snap = Inr (sp, snap')
     \<and> map fst resp =
         [''cpu'', ''memory'', ''disks'', ''network_totals'', ''network_speeds'',
          ''per_nic_speeds'', ''disk_io_speeds'', ''disk_io_totals'', ''gpu'',
          ''system_info'', ''interfaces'', ''battery'', ''top_processes_cpu'',
          ''top_processes_mem'', ''page_faults_total'', ''uptime_boot_time'', ''timestamp'',
          ''connections_count'', ''message'']
     \<and> map_of resp ''cpu'' = Some (cpu_dict env per_cpu overall)
     \<and> map_of resp ''battery'' = Some (battery_dict env)
     \<and> map_of resp ''gpu'' = Some (JList (get_gpu_info rnd env))"
proof -
  obtain sp snap' where
    poll: "get_io_and_net_speeds (time_time env) (counter_reads env) snap = Inr (sp, snap')"
    using poll_returns by blast
  obtain l1 where l1: "get_top_processes_by_cpu 8 env = Inr l1"
    using top_cpu_returns [OF assms(1)] by blast
  obtain l2 where l2: "get_top_processes_by_memory 8 env = Inr l2"
    using top_memory_returns [OF assms(1)] by blast
  show ?thesis
    by (simp add: metrics_def assms(2) poll l1 l2 py_bind_def Let_def)
qed

lemma metrics_raises:
  assumes "process_iter env = Inl e"
  shows "fst (metrics rnd env snap) = Inl e"
proof -
  obtain per_cpu overall where cpu: "sample_cpu rnd env = Inr (per_cpu, overall)"
    using sample_cpu_total by blast
  obtain sp snap' where
    poll: "get_io_and_net_speeds (time_time env) (counter_reads env) snap = Inr (sp, snap')"
    using poll_returns by blast
  show ?thesis
    by (simp add: metrics_def cpu poll top_cpu_raises [OF assms] py_bind_def Let_def)
qed

lemma metrics_cpu_section:
  assumes "metrics rnd env snap = (Inr resp, snap')"
    and "sample_cpu rnd env = Inr (per_cpu, overall)"
  shows "map_of resp ''cpu'' = Some (cpu_dict env per_cpu overall)"
proof (cases "process_iter env")
  case (Inl e)
  from metrics_raises [OF this, of rnd snap] assms(1) show ?thesis by simp
next
  case (Inr ps)
  from metrics_returns [OF this assms(2), of snap] assms(1) show ?thesis by auto
qed

text \<open>
  Where every process listing succeeds the endpoint returns a response with the nineteen
  keys of lines 354-374, whatever the guarded reads do; a missing battery or a raising
  \<^verbatim>\<open>sensors_battery\<close> gives the battery section null fields.
\<close>

lemma metrics_fixed_keys:
  assumes "process_iter env = Inr ps"
  shows "\<exists>resp snap'. metrics rnd env snap = (Inr resp, snap')
     \<and> map fst resp =
         [''cpu'', ''memory'', ''disks'', ''network_totals'', ''network_speeds'',
          ''per_nic_speeds'', ''disk_io_speeds'', ''disk_io_totals'', ''gpu'',
          ''system_info'', ''interfaces'', ''battery'', ''top_processes_cpu'',
          ''top_processes_mem'', ''page_faults_total'', ''uptime_boot_time'', ''timestamp'',
          ''connections_count'', ''message'']"
proof -
  obtain per_cpu overall where "sample_cpu rnd env = Inr (per_cpu, overall)"
    using sample_cpu_total by blast
  from metrics_returns [OF assms this, of snap] show ?thesis
    by (elim exE conjE) (intro exI conjI, assumption+)
qed

lemma battery_dict_unavailable:
  assumes "sensors_battery env = Inr None \<or> (\<exists>e. sensors_battery env = Inl e)"
  shows "battery_dict env =
     JObj [(''present'', JBool False), (''percent'', JNull), (''secsleft'', JNull),
           (''power_plugged'', JNull)]"
  using assms by (auto simp add: battery_dict_def opt_json_def)

text \<open>
  Claim C8. When the per-CPU sampling raises or reads nothing but zeros (an empty reading
  included), the per-CPU list is one placeholder per logical CPU (a single one when the
  count is unknown), each an integer from \<open>6\<close> to \<open>10\<close>; the overall percentage is
  \<^verbatim>\<open>round(mean, 1)\<close> of these values, whose mean lies between \<open>6\<close> and \<open>10\<close>. Whenever the
  process listing of the endpoint succeeds, \<^verbatim>\<open>metrics\<close> returns a response, and the \<^verbatim>\<open>cpu\<close>
  section of every response carries this list and this percentage. For every reading,
  measured or not, the per-CPU list has a positive entry.
\<close>

theorem cpu_fallback_placeholders:
  assumes "(\<exists>e. cpu_percent env = Inl e)
           \<or> (\<exists>ps. cpu_percent env = Inr ps \<and> (\<forall>p \<in> set ps. p = 0))"
  shows "(\<exists>per_cpu overall.
        sample_cpu rnd env = Inr (per_cpu, overall)
      \<and> length per_cpu =
          (case cpu_count_logical env of None \<Rightarrow> 1 | Some n \<Rightarrow> if n = 0 then 1 else n)
      \<and> (\<forall>v \<in> set per_cpu. \<exists>k::int. v = of_int k \<and> 6 \<le> k \<and> k \<le> 10)
      \<and> overall = rnd (sum_list per_cpu / of_nat (length per_cpu)) 1
      \<and> 6 \<le> sum_list per_cpu / of_nat (length per_cpu)
      \<and> sum_list per_cpu / of_nat (length per_cpu) \<le> 10
      \<and> json_get (cpu_dict env per_cpu overall) ''per_cpu'' = Some (JList (map JNum per_cpu))
      \<and> json_get (cpu_dict env per_cpu overall) ''cpu_percent'' = Some (JNum overall)
      \<and> (\<forall>snap procs. process_iter env = Inr procs \<longrightarrow>
            (\<exists>resp snap'. metrics rnd env snap = (Inr resp, snap')
               \<and> map_of resp ''cpu'' = Some (cpu_dict env per_cpu overall)))
      \<and> (\<forall>snap resp snap'. metrics rnd env snap = (Inr resp, snap') \<longrightarrow>
            map_of resp ''cpu'' = Some (cpu_dict env per_cpu overall)))
    \<and> (\<forall>env'. \<exists>per_cpu overall. sample_cpu rnd env' = Inr (per_cpu, overall)
            \<and> list_ex (\<lambda>v. 0 < v) per_cpu)"
proof -
  obtain per_cpu overall where fb: "fallback_cpu rnd env = Inr (per_cpu, overall)"
    and len: "length per_cpu =
        (case cpu_count_logical env of None \<Rightarrow> 1 | Some n \<Rightarrow> if n = 0 then 1 else n)"
    and rng: "\<forall>v \<in> set per_cpu. \<exists>k::int. v = of_int k \<and> 6 \<le> k \<and> k \<le> 10"
    and ov: "overall = rnd (sum_list per_cpu / of_nat (length per_cpu)) 1"
    using fallback_cpu_props by blast
  from sample_cpu_fallback [OF assms] fb
  have run: "sample_cpu rnd env = Inr (per_cpu, overall)" by simp
  from len have ne: "per_cpu \<noteq> []" by (auto split: option.splits if_splits)
  from rng have "\<forall>v \<in> set per_cpu. 6 \<le> v \<and> v \<le> 10" by fastforce
  from mean_bounds [OF this ne]
  have mean: "6 \<le> sum_list per_cpu / of_nat (length per_cpu)"
    "sum_list per_cpu / of_nat (length per_cpu) \<le> 10" by simp_all
  have sect: "json_get (cpu_dict env per_cpu overall) ''per_cpu'' = Some (JList (map JNum per_cpu))"
    "json_get (cpu_dict env per_cpu overall) ''cpu_percent'' = Some (JNum overall)"
    by (simp_all add: json_get_def cpu_dict_def)
  have produced: "\<forall>snap procs. process_iter env = Inr procs \<longrightarrow>
            (\<exists>resp snap'. metrics rnd env snap = (Inr resp, snap')
               \<and> map_of resp ''cpu'' = Some (cpu_dict env per_cpu overall))"
  proof (intro allI impI)
    fix snap procs
    assume "process_iter env = Inr procs"
    from metrics_returns [OF this run, of snap]
    obtain resp snap' where "metrics rnd env snap = (Inr resp, snap')"
      "map_of resp ''cpu'' = Some (cpu_dict env per_cpu overall)"
      by (elim exE conjE)
    then show "\<exists>resp snap'. metrics rnd env snap = (Inr resp, snap')
               \<and> map_of resp ''cpu'' = Some (cpu_dict env per_cpu overall)"
      by (intro exI conjI)
  qed
  have resp: "\<forall>snap resp snap'. metrics rnd env snap = (Inr resp, snap') \<longrightarrow>
            map_of resp ''cpu'' = Some (cpu_dict env per_cpu overall)"
    using metrics_cpu_section [OF _ run] by blast
  have always: "\<forall>env'. \<exists>per_cpu overall. sample_cpu rnd env' = Inr (per_cpu, overall)
            \<and> list_ex (\<lambda>v. 0 < v) per_cpu"
    using sample_cpu_total by blast
  from run len rng ov mean sect produced resp have
    "\<exists>per_cpu overall.
        sample_cpu rnd env = Inr (per_cpu, overall)
      \<and> length per_cpu =
          (case cpu_count_logical env of None \<Rightarrow> 1 | Some n \<Rightarrow> if n = 0 then 1 else n)
      \<and> (\<forall>v \<in> set per_cpu. \<exists>k::int. v = of_int k \<and> 6 \<le> k \<and> k \<le> 10)
      \<and> overall = rnd (sum_list per_cpu / of_nat (length per_cpu)) 1
      \<and> 6 \<le> sum_list per_cpu / of_nat (length per_cpu)
      \<and> sum_list per_cpu / of_nat (length per_cpu) \<le> 10
      \<and> json_get (cpu_dict env per_cpu overall) ''per_cpu'' = Some (JList (map JNum per_cpu))
      \<and> json_get (cpu_dict env per_cpu overall) ''cpu_percent'' = Some (JNum overall)
      \<and> (\<forall>snap procs. process_iter env = Inr procs \<longrightarrow>
            (\<exists>resp snap'. metrics rnd env snap = (Inr resp, snap')
               \<and> map_of resp ''cpu'' = Some (cpu_dict env per_cpu overall)))
      \<and> (\<forall>snap resp snap'. metrics rnd env snap = (Inr resp, snap') \<longrightarrow>
            map_of resp ''cpu'' = Some (cpu_dict env per_cpu overall))"
    by (intro exI conjI)
  with always show ?thesis by (intro conjI)
qed

theorem cpu_fallback_placeholders_witness:
  "cpu_percent sample_env = Inr [0, 0]
   \<and> cpu_count_logical sample_env = Some 2
   \<and> process_iter sample_env = Inr [sample_process]
   \<and> sample_cpu (\<lambda>x n. x) sample_env = Inr ([8, 6], 7)
   \<and> (\<exists>resp snap'. metrics (\<lambda>x n. x) sample_env initial_snapshot = (Inr resp, snap')
         \<and> map_of resp ''cpu'' = Some (cpu_dict sample_env [8, 6] 7))
   \<and> json_get (cpu_dict sample_env [8, 6] 7) ''per_cpu'' = Some (JList [JNum 8, JNum 6])
   \<and> json_get (cpu_dict sample_env [8, 6] 7) ''cpu_percent'' = Some (JNum 7)"
proof -
  have h: "(\<exists>e. cpu_percent sample_env = Inl e)
           \<or> (\<exists>ps. cpu_percent sample_env = Inr ps \<and> (\<forall>p \<in> set ps. p = 0))"
    by (simp add: sample_env_def)
  have draws: "map (\<lambda>i. (of_int (randint 6 10 (random_draws sample_env i)) :: rat)) [0..<2]
               = [8, 6]"
    by (simp add: sample_env_def randint_def upt_rec)
  have cnt: "cpu_count_logical sample_env = Some 2" by (simp add: sample_env_def)
  have cpu: "cpu_percent sample_env = Inr [0, 0]" by (simp add: sample_env_def)
  have listing: "process_iter sample_env = Inr [sample_process]" by (simp add: sample_env_def)
  from cpu_fallback_placeholders [OF h, of "\<lambda>x n. x", THEN conjunct1]
  obtain per_cpu overall where
    run: "sample_cpu (\<lambda>x n. x) sample_env = Inr (per_cpu, overall)"
    and sect: "json_get (cpu_dict sample_env per_cpu overall) ''per_cpu''
                 = Some (JList (map JNum per_cpu))"
      "json_get (cpu_dict sample_env per_cpu overall) ''cpu_percent'' = Some (JNum overall)"
    and produced: "\<forall>snap procs. process_iter sample_env = Inr procs \<longrightarrow>
            (\<exists>resp snap'. metrics (\<lambda>x n. x) sample_env snap = (Inr resp, snap')
               \<and> map_of resp ''cpu'' = Some (cpu_dict sample_env per_cpu overall))"
    by (elim exE conjE)
  have val: "sample_cpu (\<lambda>x n. x) sample_env = Inr ([8, 6], 7)"
    unfolding sample_cpu_fallback [OF h] fallback_cpu_eq cnt using draws by simp
  with run have eq: "per_cpu = [8, 6]" "overall = 7" by simp_all
  from produced [rule_format, OF listing, of initial_snapshot]
  have resp: "\<exists>resp snap'. metrics (\<lambda>x n. x) sample_env initial_snapshot = (Inr resp, snap')
         \<and> map_of resp ''cpu'' = Some (cpu_dict sample_env [8, 6] 7)"
    unfolding eq .
  from sect have sect': "json_get (cpu_dict sample_env [8, 6] 7) ''per_cpu''
        = Some (JList [JNum 8, JNum 6])"
    "json_get (cpu_dict sample_env [8, 6] 7) ''cpu_percent'' = Some (JNum 7)"
    unfolding eq by simp_all
  from cpu cnt listing val resp sect' show ?thesis by (intro conjI)
qed

text \<open>
  Claim C9 and the code part ways where the process listing fails. With
  \<^verbatim>\<open>psutil.process_iter\<close> raising, and every other read as in \<open>sample_env\<close>, the exception
  leaves \<^verbatim>\<open>get_top_processes_by_cpu\<close> (line 52 stands outside every \<^verbatim>\<open>try\<close>) and with it
  \<^verbatim>\<open>metrics\<close>: no response is produced, although lines 327-338 guard the same call.
\<close>

theorem metrics_aborts_when_process_listing_raises:
  "fst (metrics rnd (sample_env\<lparr>process_iter := Inl OSError\<rparr>) snap) = Inl OSError"
  by (rule metrics_raises) simp

text \<open>
  A previous counter value of \<open>0\<close> is falsy, so \<^verbatim>\<open>prev_val or now_val\<close> replaces it by the
  current value: a counter that grew from \<open>0\<close> to \<open>1500\<close> in one second is rated \<open>0\<close>.
\<close>

lemma zero_previous_counter_rated_zero:
  "calc_speed 2 (Some 1) (Some 1500) (Some 0) = Inr 0"
  by (simp add: calc_speed_Some)

text \<open>
  A stored timestamp of \<open>0\<close> is falsy as well: with the sample \<^verbatim>\<open>{t=0, bytes_sent=1000}\<close>
  stored, a poll at \<open>t = 1\<close> that reads \<^verbatim>\<open>bytes_sent = 1500\<close> takes the zero branch of line
  162. Clock readings of \<^verbatim>\<open>time.time()\<close> are positive, so the theorems above ask for \<open>0 < t\<close>.
\<close>

lemma stored_timestamp_zero_rated_zero:
  "bytes_sent_per_sec (speeds_net (fst (projr
     (get_io_and_net_speeds 1 (sample_source 1500 400 600)
        (sample_snapshot\<lparr>snap_time := Some 0, snap_net := Some (sample_counters 1000 400)\<rparr>)))))
   = 0"
  by (simp add: get_io_and_net_speeds_eq read_net_def sample_source_def py_bind_def
        net_block_def prev_time_and_def truthy_num_def sample_snapshot_def)

end
